theory Spec2Isabelle
  imports Complex_Main "HOL-Library.AList" "HOL-Library.Log_Nat"
begin

section \<open>Provider registry, model routing and API key rotation\<close>

text \<open>
  A shallow embedding of \<^verbatim>\<open>services/provider.ts\<close> (the classes \<^verbatim>\<open>ApiKeySelector\<close> and
  \<^verbatim>\<open>ProviderService\<close>) and of the Gemini transformer's \<^verbatim>\<open>transformRequestIn\<close>.
  Mutable objects become records that are passed in and returned, a thrown \<^verbatim>\<open>Error\<close>
  becomes the left injection of a sum, and a JavaScript \<^verbatim>\<open>Map\<close> becomes an association
  list with distinct keys in insertion order: \<^const>\<open>AList.update\<close> overwrites in place
  or appends (\<^verbatim>\<open>Map.set\<close>), \<^const>\<open>AList.delete\<close> is \<^verbatim>\<open>Map.delete\<close>, \<^const>\<open>map_of\<close> is
  \<^verbatim>\<open>Map.get\<close>. A property that is \<^verbatim>\<open>undefined\<close> on the JavaScript side is \<open>None\<close>.
\<close>

subsection \<open>JavaScript helpers\<close>

text \<open>Array indexing: out of range reads give \<^verbatim>\<open>undefined\<close>.\<close>

definition js_nth :: "'a list \<Rightarrow> nat \<Rightarrow> 'a option" where
  "js_nth xs i = (if i < length xs then Some (xs ! i) else None)"

text \<open>A template literal renders an undefined value as the text \<^verbatim>\<open>undefined\<close>.\<close>

definition js_template :: "string option \<Rightarrow> string" where
  "js_template v = (case v of None \<Rightarrow> ''undefined'' | Some s \<Rightarrow> s)"

subsection \<open>Numbers\<close>

text \<open>
  A JavaScript number is an IEEE 754 binary64 value. A finite one is kept as the rational
  it denotes, an integer-valued one as an \<open>int\<close>. The result of an arithmetic operation is
  the exact result rounded to the nearest binary64 value, ties going to the even
  significand (\<^verbatim>\<open>roundTiesToEven\<close>): 53 significant bits counted from the binade of the
  exact result, and no binade below that of the smallest normal number, \<open>2 powi (-1022)\<close>.
  The sums and products formed below stay under the overflow threshold.

  \<open>doublings\<close> counts how often a positive number below \<open>1\<close> must be doubled to reach
  \<open>1\<close>, at most 1022 times; \<open>binade x\<close> is the exponent \<open>p\<close> with
  \<open>2 powi p \<le> x < 2 powi (p + 1)\<close> of a positive \<open>x\<close>, and \<open>-1022\<close> when \<open>x\<close> is smaller
  than \<open>2 powi (-1022)\<close>.
\<close>

fun doublings :: "nat \<Rightarrow> rat \<Rightarrow> nat" where
  "doublings 0 x = 0"
| "doublings (Suc fuel) x = (if 1 \<le> x then 0 else Suc (doublings fuel (2 * x)))"

definition binade :: "rat \<Rightarrow> int" where
  "binade x = (if 1 \<le> x then bitlen \<lfloor>x\<rfloor> - 1 else - int (doublings 1022 x))"

definition round_half_even :: "rat \<Rightarrow> int" where
  "round_half_even y =
    (let f = \<lfloor>y\<rfloor> in
     if y - of_int f < 1 / 2 then f
     else if 1 / 2 < y - of_int f then f + 1
     else if even f then f else f + 1)"

definition binary64 :: "rat \<Rightarrow> rat" where
  "binary64 x =
    (if x = 0 then 0
     else sgn x * (2 powi (binade \<bar>x\<bar> - 52)) *
            of_int (round_half_even (\<bar>x\<bar> / 2 powi (binade \<bar>x\<bar> - 52))))"


text \<open>
  \<^verbatim>\<open>excludeIndex + 1\<close> for an integer-valued \<open>excludeIndex\<close>. For \<open>excludeIndex \<ge> 0\<close> the
  rounded sum is an integer again (lemma \<open>plus_one_integer\<close> below).
\<close>

definition plus_one :: "int \<Rightarrow> int" where
  "plus_one e = \<lfloor>binary64 (of_int e + 1)\<rfloor>"

text \<open>
  \<^verbatim>\<open>Math.floor(Math.random() * k)\<close>, with the value drawn by \<^verbatim>\<open>Math.random()\<close> passed in
  as \<open>u\<close>: a binary64 number with \<open>0 \<le> u < 1\<close>. The product is rounded.
\<close>

definition floor_random :: "rat \<Rightarrow> nat \<Rightarrow> nat" where
  "floor_random u k = nat \<lfloor>binary64 (u * of_nat k)\<rfloor>"

subsection \<open>Errors\<close>

datatype error =
    NoKeysAvailable
  | UnknownProvider string
  | NotAConstructor string
  | ConstructorFailed string
  | InvalidURL
  | Thrown string

subsection \<open>ApiKeySelector\<close>

datatype strategy = RoundRobin | Random | Failover

record ApiKeySelector =
  currentIndex :: nat
  strategy :: strategy
  keys :: "string list"

record KeySelection =
  key :: "string option"
  index :: "nat option"

definition ApiKeySelector_new :: "string list \<Rightarrow> strategy \<Rightarrow> ApiKeySelector" where
  "ApiKeySelector_new ks st = \<lparr>currentIndex = 0, strategy = st, keys = ks\<rparr>"

text \<open>
  The \<^verbatim>\<open>switch\<close> of \<^verbatim>\<open>selectKey\<close>: the selected index of each strategy together with the
  selector after the call. The strategy type has three values, so the \<^verbatim>\<open>default\<close> label is
  the round-robin case. \<open>excludeIndex\<close> is the caller's number, integer-valued (\<open>-1\<close> when
  no key failed); \<^verbatim>\<open>excludeIndex + 1\<close> is the rounded sum \<^const>\<open>plus_one\<close>, and the remainder
  of an integer-valued number by the array length is exact. The cursor is an index into
  \<^verbatim>\<open>keys\<close>, an array of fewer than \<open>2\<^sup>3\<^sup>2\<close> elements, where adding one is exact. The
  index is optional because the random branch reads \<^verbatim>\<open>availableIndices\<close> at a drawn
  position.
\<close>

definition selectIndex :: "rat \<Rightarrow> int \<Rightarrow> ApiKeySelector \<Rightarrow> nat option \<times> ApiKeySelector" where
  "selectIndex u excludeIndex sel =
    (case strategy sel of
       Random \<Rightarrow>
         (if excludeIndex \<ge> 0 \<and> length (keys sel) > 1 then
            (let availableIndices = filter (\<lambda>i. int i \<noteq> excludeIndex) [0..<length (keys sel)]
             in (js_nth availableIndices (floor_random u (length availableIndices)), sel))
          else (Some (floor_random u (length (keys sel))), sel))
     | Failover \<Rightarrow>
         (if excludeIndex \<ge> 0 then
            (let selectedIndex = nat (plus_one excludeIndex mod int (length (keys sel)))
             in (Some selectedIndex, sel\<lparr>currentIndex := selectedIndex\<rparr>))
          else (Some (currentIndex sel), sel))
     | RoundRobin \<Rightarrow>
         (if excludeIndex \<ge> 0 then
            (Some (nat (plus_one excludeIndex mod int (length (keys sel)))), sel)
          else
            (Some (currentIndex sel),
             sel\<lparr>currentIndex := (currentIndex sel + 1) mod length (keys sel)\<rparr>)))"

definition selectKey ::
  "rat \<Rightarrow> int \<Rightarrow> ApiKeySelector \<Rightarrow> error + (KeySelection \<times> ApiKeySelector)" where
  "selectKey u excludeIndex sel =
    (if length (keys sel) = 0 then Inl NoKeysAvailable
     else if length (keys sel) = 1 then
       Inr (\<lparr>key = js_nth (keys sel) 0, index = Some 0\<rparr>, sel)
     else
       (case selectIndex u excludeIndex sel of
          (selectedIndex, sel') \<Rightarrow>
            Inr (\<lparr>key = (case selectedIndex of None \<Rightarrow> None | Some i \<Rightarrow> js_nth (keys sel) i),
                  index = selectedIndex\<rparr>, sel')))"

definition getKeyCount :: "ApiKeySelector \<Rightarrow> nat" where
  "getKeyCount sel = length (keys sel)"

text \<open>A run of calls on one selector, one per entry of the list of excluded indices.\<close>

fun selectKey_calls ::
  "rat \<Rightarrow> int list \<Rightarrow> ApiKeySelector \<Rightarrow> error + (KeySelection list \<times> ApiKeySelector)" where
  "selectKey_calls u [] sel = Inr ([], sel)"
| "selectKey_calls u (e # es) sel =
    (case selectKey u e sel of
       Inl err \<Rightarrow> Inl err
     | Inr (r, sel') \<Rightarrow>
         (case selectKey_calls u es sel' of
            Inl err \<Rightarrow> Inl err
          | Inr (rs, sel'') \<Rightarrow> Inr (r # rs, sel'')))"

subsection \<open>Providers, routes and the service state\<close>

text \<open>
  A transformer instance is opaque here: the name it was looked up under and the options
  its constructor received. The transformer service hands out, per name, a constructor
  (which may throw), a ready instance, or nothing.
\<close>

datatype Transformer = TransformerInstance string "string option"

datatype Registered =
    RegConstructor "string option \<Rightarrow> error + Transformer"
  | RegInstance Transformer

type_synonym TransformerService = "string \<Rightarrow> Registered option"

text \<open>
  \<^verbatim>\<open>LLMProvider\<close>, which is also the shape of a \<^verbatim>\<open>RegisterProviderRequest\<close> (the provider is
  a spread copy of the request). The type declaration is not part of the sources at hand;
  the fields are the properties that \<^verbatim>\<open>provider.ts\<close> reads or writes: \<open>provider_id\<close> is the
  property \<^verbatim>\<open>id\<close> read by \<^verbatim>\<open>updateProvider\<close>, \<open>updatedAt\<close> the stamp it writes. The
  \<open>transformer\<close> object is kept as the list of its keys with their \<^verbatim>\<open>use\<close> chains.
\<close>

record LLMProvider =
  name :: string
  baseUrl :: string
  apiKey :: "string list"
  apiKeyStrategy :: "strategy option"
  models :: "string list"
  transformer :: "(string \<times> Transformer list) list option"
  provider_id :: "string option"
  updatedAt :: "nat option"

text \<open>\<^verbatim>\<open>Partial<LLMProvider>\<close>: a key is absent (\<open>None\<close>) or carries a value.\<close>

record ProviderUpdates =
  upd_name :: "string option"
  upd_baseUrl :: "string option"
  upd_apiKey :: "string list option"
  upd_apiKeyStrategy :: "strategy option"
  upd_models :: "string list option"
  upd_transformer :: "(string \<times> Transformer list) list option"
  upd_id :: "string option"

record ModelRoute =
  provider :: string
  model :: string
  fullModel :: string

record RequestRouteInfo =
  resolved_provider :: LLMProvider
  originalModel :: string
  targetModel :: string

datatype log_entry =
    LogWarn string
  | LogInfo string nat strategy
  | LogError string error

record ProviderService =
  providers :: "(string \<times> LLMProvider) list"
  modelRoutes :: "(string \<times> ModelRoute) list"
  keySelectors :: "(string \<times> ApiKeySelector) list"
  logger :: "log_entry list"

definition ProviderService_empty :: ProviderService where
  "ProviderService_empty = \<lparr>providers = [], modelRoutes = [], keySelectors = [], logger = []\<rparr>"

text \<open>\<^verbatim>\<open>`${providerName},${model}`\<close>\<close>

definition qualifiedName :: "string \<Rightarrow> string \<Rightarrow> string" where
  "qualifiedName providerName m = providerName @ '','' @ m"

text \<open>
  The insertion loop, written twice in the source with the same body (in
  \<^verbatim>\<open>registerProvider\<close> and in \<^verbatim>\<open>updateProvider\<close>): the qualifiedName entry is always set, the
  bare entry only when the table has no entry under that key.
\<close>

fun insertRoutes ::
  "string \<Rightarrow> string list \<Rightarrow> (string \<times> ModelRoute) list \<Rightarrow> (string \<times> ModelRoute) list" where
  "insertRoutes providerName [] routes = routes"
| "insertRoutes providerName (m # ms) routes =
    (let fullModel' = qualifiedName providerName m;
         route = \<lparr>provider = providerName, model = m, fullModel = fullModel'\<rparr>;
         routes1 = AList.update fullModel' route routes;
         routes2 = (if map_of routes1 m = None then AList.update m route routes1 else routes1)
     in insertRoutes providerName ms routes2)"

text \<open>
  The deletion loop of \<^verbatim>\<open>updateProvider\<close> and \<^verbatim>\<open>deleteProvider\<close>; the two differ in the
  prefix of the qualifiedName key (\<^verbatim>\<open>provider.id\<close> in the first, \<^verbatim>\<open>provider.name\<close> in the
  second).
\<close>

fun deleteRoutes ::
  "string \<Rightarrow> string list \<Rightarrow> (string \<times> ModelRoute) list \<Rightarrow> (string \<times> ModelRoute) list" where
  "deleteRoutes prefix [] routes = routes"
| "deleteRoutes prefix (m # ms) routes =
    deleteRoutes prefix ms (AList.delete m (AList.delete (qualifiedName prefix m) routes))"

definition registerProvider :: "LLMProvider \<Rightarrow> ProviderService \<Rightarrow> LLMProvider \<times> ProviderService" where
  "registerProvider request s =
    (let provider' = request;
         selector = ApiKeySelector_new (apiKey provider')
                      (case apiKeyStrategy provider' of None \<Rightarrow> RoundRobin | Some st \<Rightarrow> st)
     in (provider',
         s\<lparr>providers := AList.update (name provider') provider' (providers s),
           keySelectors := AList.update (name provider') selector (keySelectors s),
           modelRoutes := insertRoutes (name provider') (models request) (modelRoutes s)\<rparr>))"

definition selectApiKey ::
  "rat \<Rightarrow> string \<Rightarrow> int \<Rightarrow> ProviderService \<Rightarrow> error + (KeySelection \<times> ProviderService)" where
  "selectApiKey u providerName excludeIndex s =
    (case map_of (keySelectors s) providerName of
       None \<Rightarrow> Inl (UnknownProvider providerName)
     | Some selector \<Rightarrow>
         (case selectKey u excludeIndex selector of
            Inl err \<Rightarrow> Inl err
          | Inr (r, selector') \<Rightarrow>
              Inr (r, s\<lparr>keySelectors := AList.update providerName selector' (keySelectors s)\<rparr>)))"

text \<open>The result is a sum like that of \<^const>\<open>selectApiKey\<close>, although no path throws.\<close>

definition getApiKeyCount :: "string \<Rightarrow> ProviderService \<Rightarrow> error + nat" where
  "getApiKeyCount providerName s =
    (case map_of (keySelectors s) providerName of
       None \<Rightarrow> Inr 0
     | Some selector \<Rightarrow> Inr (getKeyCount selector))"

definition getProviders :: "ProviderService \<Rightarrow> LLMProvider list" where
  "getProviders s = map snd (providers s)"

definition getProvider :: "string \<Rightarrow> ProviderService \<Rightarrow> LLMProvider option" where
  "getProvider n s = map_of (providers s) n"

text \<open>\<^verbatim>\<open>{...provider, ...updates, updatedAt: new Date()}\<close>, the date passed in as \<open>now\<close>.\<close>

definition mergeUpdates :: "nat \<Rightarrow> LLMProvider \<Rightarrow> ProviderUpdates \<Rightarrow> LLMProvider" where
  "mergeUpdates now p u =
    \<lparr>name = (case upd_name u of None \<Rightarrow> name p | Some v \<Rightarrow> v),
     baseUrl = (case upd_baseUrl u of None \<Rightarrow> baseUrl p | Some v \<Rightarrow> v),
     apiKey = (case upd_apiKey u of None \<Rightarrow> apiKey p | Some v \<Rightarrow> v),
     apiKeyStrategy = (case upd_apiKeyStrategy u of None \<Rightarrow> apiKeyStrategy p | Some v \<Rightarrow> Some v),
     models = (case upd_models u of None \<Rightarrow> models p | Some v \<Rightarrow> v),
     transformer = (case upd_transformer u of None \<Rightarrow> transformer p | Some v \<Rightarrow> Some v),
     provider_id = (case upd_id u of None \<Rightarrow> provider_id p | Some v \<Rightarrow> Some v),
     updatedAt = Some now\<rparr>"

definition updateProvider ::
  "nat \<Rightarrow> string \<Rightarrow> ProviderUpdates \<Rightarrow> ProviderService \<Rightarrow> LLMProvider option \<times> ProviderService" where
  "updateProvider now ident updates s =
    (case map_of (providers s) ident of
       None \<Rightarrow> (None, s)
     | Some provider' \<Rightarrow>
         (let updatedProvider = mergeUpdates now provider' updates;
              s1 = s\<lparr>providers := AList.update ident updatedProvider (providers s)\<rparr>;
              s2 = (case upd_models updates of
                      None \<Rightarrow> s1
                    | Some newModels \<Rightarrow>
                        s1\<lparr>modelRoutes :=
                             insertRoutes (name provider') newModels
                               (deleteRoutes (js_template (provider_id provider')) (models provider')
                                  (modelRoutes s1))\<rparr>)
          in (Some updatedProvider, s2)))"

definition deleteProvider :: "string \<Rightarrow> ProviderService \<Rightarrow> bool \<times> ProviderService" where
  "deleteProvider ident s =
    (case map_of (providers s) ident of
       None \<Rightarrow> (False, s)
     | Some provider' \<Rightarrow>
         (True,
          s\<lparr>modelRoutes := deleteRoutes (name provider') (models provider') (modelRoutes s),
            providers := AList.delete ident (providers s)\<rparr>))"

definition toggleProvider :: "string \<Rightarrow> bool \<Rightarrow> ProviderService \<Rightarrow> bool" where
  "toggleProvider n enabled s = (case map_of (providers s) n of None \<Rightarrow> False | Some _ \<Rightarrow> True)"

definition resolveModelRoute :: "string \<Rightarrow> ProviderService \<Rightarrow> RequestRouteInfo option" where
  "resolveModelRoute modelName s =
    (case map_of (modelRoutes s) modelName of
       None \<Rightarrow> None
     | Some route \<Rightarrow>
         (case map_of (providers s) (provider route) of
            None \<Rightarrow> None
          | Some provider' \<Rightarrow>
              Some \<lparr>resolved_provider = provider', originalModel = modelName,
                    targetModel = model route\<rparr>))"

definition getAvailableModelNames :: "ProviderService \<Rightarrow> string list" where
  "getAvailableModelNames s =
    concat (map (\<lambda>(_, p). concat (map (\<lambda>m. [m, qualifiedName (name p) m]) (models p))) (providers s))"

definition getModelRoutes :: "ProviderService \<Rightarrow> ModelRoute list" where
  "getModelRoutes s = map snd (modelRoutes s)"

subsection \<open>Bulk initialisation from the configuration\<close>

text \<open>
  One element of a configured transformer chain: a bare name, a pair of a name and
  options (the second element may be missing), or any other value.
\<close>

datatype TransformerSpec = Named string | NamedWithConfig string "string option" | OtherValue

datatype ConfigApiKey = ApiKeyMissing | ApiKeyString string | ApiKeyArray "string list"

text \<open>
  \<^verbatim>\<open>ConfigProvider\<close>. Every property may be missing. \<open>cfg_transformer\<close> lists the keys of
  the configured \<^verbatim>\<open>transformer\<close> object, each with the array found under its \<^verbatim>\<open>use\<close>
  (for the key \<^verbatim>\<open>use\<close>: the array itself), or \<open>None\<close> when that is not an array.
\<close>

record ConfigProvider =
  cfg_name :: "string option"
  api_base_url :: "string option"
  api_key :: ConfigApiKey
  api_key_strategy :: "strategy option"
  cfg_models :: "string list option"
  cfg_transformer :: "(string \<times> TransformerSpec list option) list option"

definition falsy :: "string option \<Rightarrow> bool" where
  "falsy v = (v = None \<or> v = Some [])"

definition falsy_api_key :: "ConfigApiKey \<Rightarrow> bool" where
  "falsy_api_key k = (k = ApiKeyMissing \<or> k = ApiKeyString [])"

definition isArray :: "ConfigApiKey \<Rightarrow> bool" where
  "isArray k = (case k of ApiKeyArray _ \<Rightarrow> True | _ \<Rightarrow> False)"

definition arrayOf :: "ConfigApiKey \<Rightarrow> string list" where
  "arrayOf k = (case k of ApiKeyArray ks \<Rightarrow> ks | _ \<Rightarrow> [])"

text \<open>The guard at the head of the loop body of \<^verbatim>\<open>initializeFromProvidersArray\<close>.\<close>

definition invalidConfig :: "ConfigProvider \<Rightarrow> bool" where
  "invalidConfig c =
    (falsy (cfg_name c) \<or> falsy (api_base_url c) \<or> falsy_api_key (api_key c) \<or>
     \<not> isArray (api_key c) \<or> length (arrayOf (api_key c)) = 0)"

text \<open>
  The callback mapped over a chain; \<open>Inr None\<close> is the \<^verbatim>\<open>undefined\<close> that the following
  \<^verbatim>\<open>filter\<close> drops. \<^verbatim>\<open>new\<close> on a registered instance throws.
\<close>

fun resolveTransformer :: "TransformerService \<Rightarrow> TransformerSpec \<Rightarrow> error + Transformer option" where
  "resolveTransformer ts (NamedWithConfig n options) =
    (case ts n of
       None \<Rightarrow> Inr None
     | Some (RegConstructor ctor) \<Rightarrow>
         (case ctor options of Inl err \<Rightarrow> Inl err | Inr t \<Rightarrow> Inr (Some t))
     | Some (RegInstance t) \<Rightarrow> Inl (NotAConstructor n))"
| "resolveTransformer ts (Named n) =
    (case ts n of
       None \<Rightarrow> Inr None
     | Some (RegConstructor ctor) \<Rightarrow>
         (case ctor None of Inl err \<Rightarrow> Inl err | Inr t \<Rightarrow> Inr (Some t))
     | Some (RegInstance t) \<Rightarrow> Inr (Some t))"
| "resolveTransformer ts OtherValue = Inr None"

fun resolveUse :: "TransformerService \<Rightarrow> TransformerSpec list \<Rightarrow> error + Transformer list" where
  "resolveUse ts [] = Inr []"
| "resolveUse ts (x # xs) =
    (case resolveTransformer ts x of
       Inl err \<Rightarrow> Inl err
     | Inr r \<Rightarrow>
         (case resolveUse ts xs of
            Inl err \<Rightarrow> Inl err
          | Inr rs \<Rightarrow> Inr (case r of None \<Rightarrow> rs | Some t \<Rightarrow> t # rs)))"

text \<open>The loop over \<^verbatim>\<open>Object.keys(providerConfig.transformer)\<close>.\<close>

fun resolveKeys ::
  "TransformerService \<Rightarrow> (string \<times> TransformerSpec list option) list \<Rightarrow>
   (string \<times> Transformer list) list \<Rightarrow> error + (string \<times> Transformer list) list" where
  "resolveKeys ts [] acc = Inr acc"
| "resolveKeys ts ((k, use) # rest) acc =
    (case use of
       None \<Rightarrow> resolveKeys ts rest acc
     | Some specs \<Rightarrow>
         (case resolveUse ts specs of
            Inl err \<Rightarrow> Inl err
          | Inr chain \<Rightarrow> resolveKeys ts rest (AList.update k chain acc)))"

text \<open>
  The body of the \<^verbatim>\<open>forEach\<close> callback with its \<^verbatim>\<open>try\<close>/\<^verbatim>\<open>catch\<close>: an invalid entry logs a
  warning and returns, an exception logs an error, and either way the loop goes on. Past
  the guard the name and the base URL are strings, which \<^const>\<open>js_template\<close> returns as they
  are. A log entry keeps the level and the values interpolated into the message.
\<close>

definition initProvider :: "TransformerService \<Rightarrow> ConfigProvider \<Rightarrow> ProviderService \<Rightarrow> ProviderService" where
  "initProvider ts c s =
    (if invalidConfig c then s\<lparr>logger := logger s @ [LogWarn (js_template (cfg_name c))]\<rparr>
     else
       (case (case cfg_transformer c of None \<Rightarrow> Inr [] | Some t \<Rightarrow> resolveKeys ts t []) of
          Inl err \<Rightarrow> s\<lparr>logger := logger s @ [LogError (js_template (cfg_name c)) err]\<rparr>
        | Inr transformer' \<Rightarrow>
            (let request =
                   \<lparr>name = js_template (cfg_name c),
                    baseUrl = js_template (api_base_url c),
                    apiKey = arrayOf (api_key c),
                    apiKeyStrategy =
                      Some (case api_key_strategy c of None \<Rightarrow> RoundRobin | Some st \<Rightarrow> st),
                    models = (case cfg_models c of None \<Rightarrow> [] | Some ms \<Rightarrow> ms),
                    transformer = (case cfg_transformer c of None \<Rightarrow> None | Some _ \<Rightarrow> Some transformer'),
                    provider_id = None,
                    updatedAt = None\<rparr>;
                 s' = snd (registerProvider request s)
             in s'\<lparr>logger := logger s' @
                    [LogInfo (js_template (cfg_name c)) (length (arrayOf (api_key c)))
                       (case api_key_strategy c of None \<Rightarrow> RoundRobin | Some st \<Rightarrow> st)]\<rparr>)))"

fun initializeFromProvidersArray ::
  "TransformerService \<Rightarrow> ConfigProvider list \<Rightarrow> ProviderService \<Rightarrow> ProviderService" where
  "initializeFromProvidersArray ts [] s = s"
| "initializeFromProvidersArray ts (c # cs) s =
    initializeFromProvidersArray ts cs (initProvider ts c s)"

text \<open>The constructor: the configured value under \<^verbatim>\<open>providers\<close> is used when it is an array.\<close>

definition ProviderService_new :: "TransformerService \<Rightarrow> ConfigProvider list option \<Rightarrow> ProviderService" where
  "ProviderService_new ts providersConfig =
    (case providersConfig of
       None \<Rightarrow> ProviderService_empty
     | Some cs \<Rightarrow> initializeFromProvidersArray ts cs ProviderService_empty)"

subsection \<open>The Gemini transformer\<close>

text \<open>
  \<^verbatim>\<open>transformRequestIn\<close> reads \<^verbatim>\<open>model\<close> and \<^verbatim>\<open>stream\<close> of the request and \<^verbatim>\<open>baseUrl\<close> and
  \<^verbatim>\<open>apiKey\<close> of the provider, where it accepts an array of keys as well as a single key.
  \<^verbatim>\<open>buildRequestBody\<close> (of \<^verbatim>\<open>utils/gemini.util\<close>) and the platform's \<^verbatim>\<open>URL\<close> constructor are
  parameters; either may throw.
\<close>

record 'a UnifiedChatRequest =
  request_model :: string
  stream :: "bool option"
  content :: 'a

datatype ApiKeyProperty = KeyArray "string list" | KeyString string

record ProviderArg =
  arg_baseUrl :: string
  arg_apiKey :: ApiKeyProperty

record ('b, 'u) RequestConfig =
  body :: 'b
  url :: 'u
  headers :: "(string \<times> string option) list"

definition truthy :: "bool option \<Rightarrow> bool" where
  "truthy v = (v = Some True)"

definition transformRequestIn ::
  "('a UnifiedChatRequest \<Rightarrow> error + 'b) \<Rightarrow> (string \<Rightarrow> string \<Rightarrow> error + 'u) \<Rightarrow>
   'a UnifiedChatRequest \<Rightarrow> ProviderArg \<Rightarrow> error + ('b, 'u) RequestConfig" where
  "transformRequestIn buildRequestBody newURL request p =
    (let apiKey' = (case arg_apiKey p of KeyArray ks \<Rightarrow> js_nth ks 0 | KeyString k \<Rightarrow> Some k)
     in case buildRequestBody request of
          Inl err \<Rightarrow> Inl err
        | Inr b \<Rightarrow>
            (case newURL
                    (''./'' @ request_model request @ '':'' @
                       (if truthy (stream request) then ''streamGenerateContent?alt=sse''
                        else ''generateContent''))
                    (arg_baseUrl p) of
               Inl err \<Rightarrow> Inl err
             | Inr target \<Rightarrow>
                 Inr \<lparr>body = b, url = target,
                      headers = [(''x-goog-api-key'', apiKey'), (''Authorization'', None)]\<rparr>))"

text \<open>The provider as the registry holds it, seen by the transformer.\<close>

definition providerArg :: "LLMProvider \<Rightarrow> ProviderArg" where
  "providerArg p = \<lparr>arg_baseUrl = baseUrl p, arg_apiKey = KeyArray (apiKey p)\<rparr>"

subsection \<open>Inputs used in the examples\<close>

text \<open>Configured providers, as the records under the \<^verbatim>\<open>providers\<close> key of the configuration.\<close>

definition config_P :: ConfigProvider where
  "config_P =
    \<lparr>cfg_name = Some ''P'', api_base_url = Some ''https://p.example'',
     api_key = ApiKeyArray [''k1''], api_key_strategy = None,
     cfg_models = Some [''m1''], cfg_transformer = None\<rparr>"

definition config_P2 :: ConfigProvider where
  "config_P2 =
    \<lparr>cfg_name = Some ''P'', api_base_url = Some ''https://p.example'',
     api_key = ApiKeyArray [''k1'', ''k2''], api_key_strategy = None,
     cfg_models = Some [''m1''], cfg_transformer = None\<rparr>"

definition config_A :: ConfigProvider where
  "config_A =
    \<lparr>cfg_name = Some ''A'', api_base_url = Some ''https://a.example'',
     api_key = ApiKeyArray [''ka''], api_key_strategy = None,
     cfg_models = Some [''chat''], cfg_transformer = None\<rparr>"

definition config_B :: ConfigProvider where
  "config_B =
    \<lparr>cfg_name = Some ''B'', api_base_url = Some ''https://b.example'',
     api_key = ApiKeyArray [''kb''], api_key_strategy = None,
     cfg_models = Some [''chat''], cfg_transformer = None\<rparr>"

definition config_bad :: ConfigProvider where
  "config_bad =
    \<lparr>cfg_name = Some ''bad'', api_base_url = Some ''https://bad.example'',
     api_key = ApiKeyArray [], api_key_strategy = None,
     cfg_models = Some [''m0''], cfg_transformer = None\<rparr>"

text \<open>The update object \<^verbatim>\<open>{models: ms}\<close>.\<close>

definition models_update :: "string list \<Rightarrow> ProviderUpdates" where
  "models_update ms =
    \<lparr>upd_name = None, upd_baseUrl = None, upd_apiKey = None, upd_apiKeyStrategy = None,
     upd_models = Some ms, upd_transformer = None, upd_id = None\<rparr>"

text \<open>Requests passed to \<^verbatim>\<open>registerProvider\<close> directly.\<close>

definition provider_P_first :: LLMProvider where
  "provider_P_first =
    \<lparr>name = ''P'', baseUrl = ''https://p.example'', apiKey = [''k1''],
     apiKeyStrategy = None, models = [''m1'', ''m2''], transformer = None,
     provider_id = None, updatedAt = None\<rparr>"

definition provider_P_second :: LLMProvider where
  "provider_P_second =
    \<lparr>name = ''P'', baseUrl = ''https://p2.example'', apiKey = [''k9''],
     apiKeyStrategy = Some Failover, models = [''m2''], transformer = None,
     provider_id = None, updatedAt = None\<rparr>"

definition provider_unchecked :: LLMProvider where
  "provider_unchecked =
    \<lparr>name = [], baseUrl = [], apiKey = [], apiKeyStrategy = None, models = [''m''],
     transformer = None, provider_id = None, updatedAt = None\<rparr>"

text \<open>A streaming request and a provider as the Gemini transformer receives them.\<close>

definition gemini_request :: "string UnifiedChatRequest" where
  "gemini_request = \<lparr>request_model = ''gemini-pro'', stream = Some True, content = ''hello''\<rparr>"

definition gemini_provider :: ProviderArg where
  "gemini_provider =
    \<lparr>arg_baseUrl = ''https://g.example/v1beta/models/'', arg_apiKey = KeyArray [''k1'', ''k2'']\<rparr>"

text \<open>
  A body builder that returns the content of the request, one that throws, and two values
  of the platform's \<^verbatim>\<open>URL\<close> constructor, the only ones used below: the empty string is
  not a base URL (the constructor throws a \<^verbatim>\<open>TypeError\<close>), and against the base
  \<^verbatim>\<open>https://g.example/v1beta/models/\<close> the reference
  \<^verbatim>\<open>./gemini-pro:streamGenerateContent?alt=sse\<close> resolves to
  \<^verbatim>\<open>https://g.example/v1beta/models/gemini-pro:streamGenerateContent?alt=sse\<close>.
\<close>

definition content_body :: "string UnifiedChatRequest \<Rightarrow> error + string" where
  "content_body r = Inr (content r)"

definition failing_body :: "string UnifiedChatRequest \<Rightarrow> error + string" where
  "failing_body r = Inl (Thrown ''buildRequestBody'')"

definition tabulated_URL :: "string \<Rightarrow> string \<Rightarrow> error + string" where
  "tabulated_URL reference base =
    (if base = [] then Inl InvalidURL
     else if base = ''https://g.example/v1beta/models/'' \<and>
             reference = ''./gemini-pro:streamGenerateContent?alt=sse''
       then Inr ''https://g.example/v1beta/models/gemini-pro:streamGenerateContent?alt=sse''
     else Inl (Thrown ''not tabulated''))"

text \<open>A provider whose only model is named like a qualified name, and its second registration.\<close>

definition provider_Q_first :: LLMProvider where
  "provider_Q_first =
    \<lparr>name = ''P'', baseUrl = ''https://p.example'', apiKey = [''k1''],
     apiKeyStrategy = None, models = [''P,x''], transformer = None,
     provider_id = None, updatedAt = None\<rparr>"

definition provider_Q_second :: LLMProvider where
  "provider_Q_second =
    \<lparr>name = ''P'', baseUrl = ''https://p.example'', apiKey = [''k1''],
     apiKeyStrategy = None, models = [''x''], transformer = None,
     provider_id = None, updatedAt = None\<rparr>"

text \<open>Selectors with three keys.\<close>

definition three_keys :: "strategy \<Rightarrow> ApiKeySelector" where
  "three_keys st = \<lparr>currentIndex = 0, strategy = st, keys = [''k1'', ''k2'', ''k3'']\<rparr>"

section \<open>Key selection\<close>

subsection \<open>Rounding\<close>

lemma round_half_even_of_int: "round_half_even (of_int m) = m"
  by (simp add: round_half_even_def)

lemma round_half_even_upper: "of_int (round_half_even y) \<le> y + 1 / 2"
proof -
  have f: "of_int \<lfloor>y\<rfloor> \<le> y"
    by simp
  consider (below) "y - of_int \<lfloor>y\<rfloor> < 1 / 2" | (above) "1 / 2 < y - of_int \<lfloor>y\<rfloor>"
    | (tie) "y - of_int \<lfloor>y\<rfloor> = 1 / 2"
    by linarith
  then show ?thesis
  proof cases
    case below
    then have r: "round_half_even y = \<lfloor>y\<rfloor>"
      by (simp add: round_half_even_def)
    have "of_int \<lfloor>y\<rfloor> \<le> y + 1 / 2"
      using f by linarith
    then show ?thesis by (simp only: r)
  next
    case above
    then have r: "round_half_even y = \<lfloor>y\<rfloor> + 1"
      by (simp add: round_half_even_def)
    have "of_int (\<lfloor>y\<rfloor> + 1) \<le> y + 1 / 2"
      using above by simp
    then show ?thesis by (simp only: r)
  next
    case tie
    then have r: "round_half_even y = \<lfloor>y\<rfloor> \<or> round_half_even y = \<lfloor>y\<rfloor> + 1"
      by (simp add: round_half_even_def Let_def)
    have "of_int \<lfloor>y\<rfloor> \<le> y + 1 / 2" "of_int (\<lfloor>y\<rfloor> + 1) \<le> y + 1 / 2"
      using tie by simp_all
    with r show ?thesis by metis
  qed
qed

lemma round_half_even_nonneg: "0 \<le> y \<Longrightarrow> 0 \<le> round_half_even y"
  by (auto simp: round_half_even_def Let_def)

lemma binary64_pos:
  "0 < x \<Longrightarrow>
   binary64 x = 2 powi (binade x - 52) * of_int (round_half_even (x / 2 powi (binade x - 52)))"
  by (simp add: binary64_def)

lemma binary64_nonneg: "0 \<le> x \<Longrightarrow> 0 \<le> binary64 x"
proof (cases "x = 0")
  case True
  then show ?thesis by (simp add: binary64_def)
next
  case False
  assume "0 \<le> x"
  with False have x: "0 < x" by simp
  have "0 \<le> x / 2 powi (binade x - 52)"
    using x by simp
  then have "0 \<le> round_half_even (x / 2 powi (binade x - 52))"
    by (rule round_half_even_nonneg)
  then show ?thesis
    using x by (simp add: binary64_pos)
qed

lemma binary64_exact:
  assumes "0 < x" and "x / 2 powi (binade x - 52) = of_int m"
  shows "binary64 x = x"
proof -
  have "binary64 x = 2 powi (binade x - 52) * (x / 2 powi (binade x - 52))"
    using assms by (simp add: binary64_pos round_half_even_of_int)
  then show ?thesis by simp
qed

lemma binary64_upper:
  assumes "0 < x"
  shows "binary64 x \<le> x + 2 powi binade x / 2 ^ 53"
proof -
  let ?ulp = "(2::rat) powi (binade x - 52)"
  have ulp: "0 < ?ulp" by simp
  have "of_int (round_half_even (x / ?ulp)) \<le> x / ?ulp + 1 / 2"
    by (rule round_half_even_upper)
  then have "?ulp * of_int (round_half_even (x / ?ulp)) \<le> ?ulp * (x / ?ulp + 1 / 2)"
    using ulp by (simp only: mult_le_cancel_left_pos)
  also have "\<dots> = x + ?ulp / 2"
    using ulp by (simp add: distrib_left)
  also have "?ulp / 2 = 2 powi binade x / 2 ^ 53"
  proof -
    have "(2::rat) powi (binade x - 52) = 2 powi binade x / 2 powi 52"
      by (simp add: power_int_diff)
    then show ?thesis by simp
  qed
  finally show ?thesis
    using assms by (simp add: binary64_pos)
qed

lemma binade_int:
  assumes "1 \<le> i"
  shows "0 \<le> binade (of_int i)" "2 ^ nat (binade (of_int i)) \<le> i" "i < 2 ^ nat (binade (of_int i) + 1)"
proof -
  have b: "binade (of_int i) = bitlen i - 1"
    using assms by (simp add: binade_def)
  have pos: "0 < i" using assms by simp
  from bitlen_bounds[OF pos] have bounds: "2 ^ nat (bitlen i - 1) \<le> i" "i < 2 ^ nat (bitlen i)"
    by auto
  have "0 < bitlen i"
  proof (rule ccontr)
    assume "\<not> 0 < bitlen i"
    then have "nat (bitlen i) = 0" by simp
    with bounds(2) pos show False by simp
  qed
  then show "0 \<le> binade (of_int i)" by (simp add: b)
  show "2 ^ nat (binade (of_int i)) \<le> i" using bounds by (simp add: b)
  show "i < 2 ^ nat (binade (of_int i) + 1)" using bounds by (simp add: b)
qed

lemma binary64_int_exact:
  assumes "1 \<le> i" and "i \<le> 2 ^ 53"
  shows "binary64 (of_int i) = of_int i"
proof -
  let ?p = "binade (of_int i)"
  note b = binade_int[OF assms(1)]
  have "(2::int) ^ nat ?p \<le> 2 ^ 53"
    using b(2) assms(2) by linarith
  then have "nat ?p \<le> 53"
    by (intro power_le_imp_le_exp[of 2]) simp_all
  then have p: "?p \<le> 53" using b(1) by linarith
  have pos: "(0::rat) < of_int i" using assms(1) by simp
  show ?thesis
  proof (cases "?p \<le> 52")
    case True
    have "(of_int i :: rat) / 2 powi (?p - 52) = of_int i * 2 powi (52 - ?p)"
      by (simp add: power_int_diff)
    also have "(2::rat) powi (52 - ?p) = 2 ^ nat (52 - ?p)"
      using True by (simp add: power_int_def)
    also have "of_int i * (2::rat) ^ nat (52 - ?p) = of_int (i * 2 ^ nat (52 - ?p))"
      by simp
    finally show ?thesis
      using pos by (rule binary64_exact[rotated])
  next
    case False
    with p have p53: "?p = 53" by simp
    then have "2 ^ 53 \<le> i" using b(2) by simp
    with assms(2) have i: "i = 2 ^ 53" by simp
    have "(of_int i :: rat) / 2 powi (?p - 52) = of_int (2 ^ 52)"
      by (simp add: p53) (simp add: i)
    with pos show ?thesis by (rule binary64_exact)
  qed
qed

lemma binade_upper:
  assumes "0 < x"
  shows "2 powi binade x \<le> max x (1 / 2)"
proof (cases "1 \<le> x")
  case True
  then have i: "1 \<le> \<lfloor>x\<rfloor>" by simp
  have "binade x = binade (of_int \<lfloor>x\<rfloor>)"
    using True i by (simp add: binade_def)
  with binade_int[OF i] have "0 \<le> binade x" "2 ^ nat (binade x) \<le> \<lfloor>x\<rfloor>"
    by simp_all
  then have "(2::rat) powi binade x = of_int (2 ^ nat (binade x))" "(of_int (2 ^ nat (binade x)) :: rat) \<le> of_int \<lfloor>x\<rfloor>"
    by (simp_all add: power_int_def del: of_int_power)
  moreover have "of_int \<lfloor>x\<rfloor> \<le> x" by simp
  ultimately have "(2::rat) powi binade x \<le> x" by linarith
  then show ?thesis by simp
next
  case False
  then obtain d where d: "doublings 1022 x = Suc d"
    by (simp add: eval_nat_numeral)
  then have "binade x = - int (Suc d)"
    using False by (simp add: binade_def)
  then have "(2::rat) powi binade x = 1 / 2 powi int (Suc d)"
    by (simp only: power_int_minus_divide)
  also have "\<dots> = 1 / 2 ^ Suc d"
    by (simp only: power_int_of_nat)
  also have "\<dots> \<le> 1 / 2"
    by (simp add: field_simps)
  finally show ?thesis by simp
qed

lemma binary64_below_one:
  assumes "0 \<le> u" "u < 1" "binary64 u = u"
  shows "u \<le> 1 - 1 / 2 ^ 53"
proof (cases "u < 1 / 2")
  case True
  then show ?thesis by simp
next
  case False
  then have u: "0 < u" "1 / 2 \<le> u" by simp_all
  have "doublings 1022 u = 1"
    using u assms(2) by (simp add: eval_nat_numeral)
  then have "binade u = - 1"
    using assms(2) by (simp add: binade_def)
  then have "binary64 u = of_int (round_half_even (u * 2 ^ 53)) / 2 ^ 53"
    using u(1) by (simp add: binary64_pos power_int_minus_divide)
  with assms(3) have eq: "u * 2 ^ 53 = of_int (round_half_even (u * 2 ^ 53))"
    by (simp add: field_simps)
  have "u * 2 ^ 53 < 2 ^ 53"
    using assms(2) by simp
  with eq have "(of_int (round_half_even (u * 2 ^ 53)) :: rat) < of_int (2 ^ 53)"
    by simp
  then have "round_half_even (u * 2 ^ 53) < 2 ^ 53"
    by (simp only: of_int_less_iff)
  then have "round_half_even (u * 2 ^ 53) \<le> 2 ^ 53 - 1"
    by simp
  then have "(of_int (round_half_even (u * 2 ^ 53)) :: rat) \<le> of_int (2 ^ 53 - 1)"
    by (simp only: of_int_le_iff)
  with eq have "u * 2 ^ 53 \<le> 2 ^ 53 - 1"
    by simp
  then show ?thesis
    by (simp add: field_simps)
qed

lemma plus_one_exact:
  assumes "0 \<le> e" and "e < 2 ^ 53"
  shows "plus_one e = e + 1"
proof -
  have "binary64 (of_int (e + 1)) = of_int (e + 1)"
    using assms by (intro binary64_int_exact) simp_all
  then show ?thesis
    by (simp add: plus_one_def)
qed

lemma plus_one_integer:
  assumes "0 \<le> e"
  shows "of_int (plus_one e) = binary64 (of_int e + 1)"
proof (cases "e < 2 ^ 53")
  case True
  have "binary64 (of_int (e + 1)) = of_int (e + 1)"
    using assms True by (intro binary64_int_exact) simp_all
  then show ?thesis
    by (simp add: plus_one_def)
next
  case False
  let ?i = "e + 1"
  let ?p = "binade (of_int ?i)"
  have i: "1 \<le> ?i" using assms by simp
  note b = binade_int[OF i]
  have "(2::int) ^ 53 < 2 ^ nat (?p + 1)"
    using False b(3) by linarith
  then have "53 < nat (?p + 1)"
    by (simp only: power_strict_increasing_iff) 
  then have p: "52 \<le> ?p - 52 + 52" "0 \<le> ?p - 52" by linarith+
  have "(2::rat) powi (?p - 52) = of_int (2 ^ nat (?p - 52))"
    using p(2) by (simp add: power_int_def)
  then have "binary64 (of_int ?i) =
      of_int (2 ^ nat (?p - 52) * round_half_even (of_int ?i / 2 powi (?p - 52)))"
    using i by (simp add: binary64_pos)
  then have "of_int \<lfloor>binary64 (of_int ?i)\<rfloor> = binary64 (of_int ?i)"
    by (simp only: floor_of_int)
  then show ?thesis
    by (simp add: plus_one_def)
qed

lemma plus_one_rounds: "plus_one (2 ^ 53) = 2 ^ 53"
  by code_simp

lemma floor_random_rounds: "floor_random (6004799503160661 / 2 ^ 53) 3 = 2"
  by code_simp

lemma floor_random_less:
  assumes "0 \<le> u" "u < 1" "binary64 u = u" "0 < k"
  shows "floor_random u k < k"
proof -
  let ?x = "u * of_nat k"
  have k: "(1::rat) \<le> of_nat k" using assms(4) by simp
  have le: "?x \<le> of_nat k - of_nat k / 2 ^ 53"
  proof -
    have "u * of_nat k \<le> (1 - 1 / 2 ^ 53) * of_nat k"
      using binary64_below_one[OF assms(1-3)] k by (intro mult_right_mono) simp_all
    then show ?thesis by (simp add: algebra_simps)
  qed
  have "binary64 ?x < of_nat k"
  proof (cases "?x = 0")
    case True
    then show ?thesis using k by (simp add: binary64_def)
  next
    case False
    then have pos: "0 < ?x" using assms(1) by simp
    have "(0::rat) < of_nat k / 2 ^ 53" using assms(4) by simp
    with le have "?x < of_nat k" by linarith
    with binade_upper[OF pos] k have "2 powi binade ?x < (of_nat k :: rat)"
      by linarith
    then have "2 powi binade ?x / 2 ^ 53 < (of_nat k :: rat) / 2 ^ 53"
      by (simp add: divide_strict_right_mono)
    with binary64_upper[OF pos] le show ?thesis by linarith
  qed
  then have "\<lfloor>binary64 ?x\<rfloor> < int k"
    by (simp add: floor_less_iff)
  moreover have "0 \<le> \<lfloor>binary64 ?x\<rfloor>"
    using binary64_nonneg[of ?x] assms(1) by simp
  ultimately show ?thesis
    by (simp add: floor_random_def nat_less_iff)
qed


subsection \<open>Auxiliary facts\<close>

lemma mod_index_less: "0 < n \<Longrightarrow> nat (i mod int n) < n"
  by (simp add: nat_less_iff)

lemma selectKey_many_keys:
  "2 \<le> length (keys sel) \<Longrightarrow>
   selectKey u e sel =
     (case selectIndex u e sel of
        (selectedIndex, sel') \<Rightarrow>
          Inr (\<lparr>key = (case selectedIndex of None \<Rightarrow> None | Some i \<Rightarrow> js_nth (keys sel) i),
                index = selectedIndex\<rparr>, sel'))"
  by (cases "keys sel") (auto simp: selectKey_def)

lemma ApiKeySelector_new_valid_index:
  "ks \<noteq> [] \<Longrightarrow> currentIndex (ApiKeySelector_new ks st) < length (keys (ApiKeySelector_new ks st))"
  by (simp add: ApiKeySelector_new_def)

lemma selectKey_valid_index:
  assumes "selectKey u e sel = Inr (r, sel')" "currentIndex sel < length (keys sel)"
  shows "currentIndex sel' < length (keys sel') \<and> keys sel' = keys sel \<and> strategy sel' = strategy sel"
  using assms mod_index_less[of "length (keys sel)" "plus_one e"]
  by (auto simp: selectKey_def selectIndex_def Let_def split: if_splits strategy.splits prod.splits)

lemma roundRobin_step:
  assumes "strategy sel = RoundRobin" "2 \<le> length (keys sel)" "currentIndex sel < length (keys sel)" "e < 0"
  shows "selectKey u e sel =
     Inr (\<lparr>key = Some (keys sel ! currentIndex sel), index = Some (currentIndex sel)\<rparr>,
          sel\<lparr>currentIndex := (currentIndex sel + 1) mod length (keys sel)\<rparr>)"
  using assms by (simp add: selectKey_many_keys selectIndex_def js_nth_def)

lemma roundRobin_failure:
  assumes "strategy sel = RoundRobin" "2 \<le> length (keys sel)" "0 \<le> e"
  shows "selectKey u e sel =
     Inr (\<lparr>key = Some (keys sel ! nat (plus_one e mod int (length (keys sel)))),
           index = Some (nat (plus_one e mod int (length (keys sel))))\<rparr>, sel)"
proof -
  have "nat (plus_one e mod int (length (keys sel))) < length (keys sel)"
    using assms(2) by (intro mod_index_less) linarith
  then show ?thesis
    using assms by (simp add: selectKey_many_keys selectIndex_def js_nth_def)
qed

lemma roundRobin_calls:
  assumes "strategy sel = RoundRobin" "2 \<le> length (keys sel)" "currentIndex sel < length (keys sel)"
  shows "selectKey_calls u (replicate k (-1)) sel =
     Inr (map (\<lambda>i. \<lparr>key = Some (keys sel ! ((currentIndex sel + i) mod length (keys sel))),
                     index = Some ((currentIndex sel + i) mod length (keys sel))\<rparr>) [0..<k],
          sel\<lparr>currentIndex := (currentIndex sel + k) mod length (keys sel)\<rparr>)"
  using assms
proof (induction k arbitrary: sel)
  case 0
  then show ?case by simp
next
  case (Suc k)
  let ?n = "length (keys sel)"
  let ?sel' = "sel\<lparr>currentIndex := (currentIndex sel + 1) mod ?n\<rparr>"
  have step: "selectKey u (-1) sel =
     Inr (\<lparr>key = Some (keys sel ! currentIndex sel), index = Some (currentIndex sel)\<rparr>, ?sel')"
    using Suc.prems by (intro roundRobin_step) auto
  have ih: "selectKey_calls u (replicate k (-1)) ?sel' =
     Inr (map (\<lambda>i. \<lparr>key = Some (keys ?sel' ! ((currentIndex ?sel' + i) mod length (keys ?sel'))),
                     index = Some ((currentIndex ?sel' + i) mod length (keys ?sel'))\<rparr>) [0..<k],
          ?sel'\<lparr>currentIndex := (currentIndex ?sel' + k) mod length (keys ?sel')\<rparr>)"
  proof (intro Suc.IH)
    have "0 < ?n" using Suc.prems(2) by linarith
    then show "currentIndex ?sel' < length (keys ?sel')" by simp
  qed (use Suc.prems in auto)
  have shift: "\<And>i. (Suc (currentIndex sel) mod ?n + i) mod ?n = Suc (currentIndex sel + i) mod ?n"
    by (simp add: mod_add_left_eq)
  have upt: "[0..<Suc k] = 0 # map Suc [0..<k]"
    by (simp add: upt_conv_Cons map_Suc_upt del: upt_Suc)
  have "selectKey_calls u (replicate (Suc k) (-1)) sel =
     Inr (\<lparr>key = Some (keys sel ! currentIndex sel), index = Some (currentIndex sel)\<rparr> #
          map (\<lambda>i. \<lparr>key = Some (keys sel ! ((currentIndex sel + Suc i) mod ?n)),
                     index = Some ((currentIndex sel + Suc i) mod ?n)\<rparr>) [0..<k],
          sel\<lparr>currentIndex := (currentIndex sel + Suc k) mod ?n\<rparr>)"
    using ih by (simp add: step shift)
  then show ?case
    using Suc.prems(3) by (simp only: upt list.map map_map comp_def) simp
qed

lemma availableIndices_nonempty:
  assumes "1 < n"
  shows "filter (\<lambda>i. int i \<noteq> e) [0..<n] \<noteq> []"
proof (cases "e = 0")
  case True
  then have "1 \<in> set (filter (\<lambda>i. int i \<noteq> e) [0..<n])" using assms by simp
  then show ?thesis by (metis empty_iff empty_set)
next
  case False
  then have "0 \<in> set (filter (\<lambda>i. int i \<noteq> e) [0..<n])" using assms by simp
  then show ?thesis by (metis empty_iff empty_set)
qed

lemma random_exclude:
  assumes "strategy sel = Random" "1 < length (keys sel)" "0 \<le> e"
    and "0 \<le> u" "u < 1" "binary64 u = u"
  shows "\<exists>i. selectKey u e sel = Inr (\<lparr>key = Some (keys sel ! i), index = Some i\<rparr>, sel) \<and>
             i < length (keys sel) \<and> int i \<noteq> e"
proof -
  let ?avail = "filter (\<lambda>i. int i \<noteq> e) [0..<length (keys sel)]"
  let ?r = "floor_random u (length ?avail)"
  have "0 < length ?avail"
    using availableIndices_nonempty[OF assms(2), of e] by simp
  then have r: "?r < length ?avail"
    using assms(4,5,6) by (intro floor_random_less)
  then have "?avail ! ?r \<in> set ?avail"
    by (rule nth_mem)
  then have i: "?avail ! ?r < length (keys sel)" "int (?avail ! ?r) \<noteq> e"
    by auto
  have "selectKey u e sel =
      Inr (\<lparr>key = Some (keys sel ! (?avail ! ?r)), index = Some (?avail ! ?r)\<rparr>, sel)"
    using assms(1,2,3) r i(1)
    by (simp add: selectKey_many_keys selectIndex_def js_nth_def Let_def)
  with i show ?thesis by blast
qed

lemma single_key:
  assumes "length (keys sel) = 1"
  shows "selectKey u e sel = Inr (\<lparr>key = Some (keys sel ! 0), index = Some 0\<rparr>, sel)"
  using assms by (simp add: selectKey_def js_nth_def)

lemma failover_nonfailure:
  assumes "strategy sel = Failover" "2 \<le> length (keys sel)" "currentIndex sel < length (keys sel)" "e < 0"
  shows "selectKey u e sel =
     Inr (\<lparr>key = Some (keys sel ! currentIndex sel), index = Some (currentIndex sel)\<rparr>, sel)"
  using assms by (simp add: selectKey_many_keys selectIndex_def js_nth_def)

lemma failover_failure:
  assumes "strategy sel = Failover" "2 \<le> length (keys sel)" "0 \<le> e"
  shows "selectKey u e sel =
     Inr (\<lparr>key = Some (keys sel ! nat (plus_one e mod int (length (keys sel)))),
           index = Some (nat (plus_one e mod int (length (keys sel))))\<rparr>,
          sel\<lparr>currentIndex := nat (plus_one e mod int (length (keys sel)))\<rparr>)"
proof -
  have "nat (plus_one e mod int (length (keys sel))) < length (keys sel)"
    using assms(2) by (intro mod_index_less) linarith
  then show ?thesis
    using assms by (simp add: selectKey_many_keys selectIndex_def js_nth_def Let_def)
qed

subsection \<open>Round-robin\<close>

text \<open>
  Claim C6, as stated, fails for a failure call with a large \<open>excludeIndex\<close>: the sum
  \<^verbatim>\<open>excludeIndex + 1\<close> is rounded, so with three keys and \<open>excludeIndex = 2 ^ 53\<close> the call
  returns the key at index \<open>2\<close>, where \<open>(excludeIndex + 1) mod 3\<close> is \<open>0\<close>.
\<close>

theorem roundRobin_selectKey_counterexample:
  "selectKey 0 (2 ^ 53) (three_keys RoundRobin) =
     Inr (\<lparr>key = Some ''k3'', index = Some 2\<rparr>, three_keys RoundRobin) \<and>
   nat ((2 ^ 53 + 1) mod int (length (keys (three_keys RoundRobin)))) = 0"
proof -
  have "strategy (three_keys RoundRobin) = RoundRobin"
    "2 \<le> length (keys (three_keys RoundRobin))" "(0::int) \<le> 2 ^ 53"
    by (simp_all add: three_keys_def)
  from roundRobin_failure[OF this, of 0] show ?thesis
    by (simp add: plus_one_rounds[simplified] three_keys_def)
qed

text \<open>
  Claim C6, amended. Under the round-robin strategy with at least two keys and a cursor
  inside the key list, a non-failure call \<open>selectKey(-1)\<close> returns the key at the stored
  cursor and advances the cursor by one modulo the number of keys, so \<open>k\<close> successive
  non-failure calls return the indices \<open>c, c+1, \<dots>\<close> modulo the number of keys, starting at
  the cursor \<open>c\<close> (which is \<open>0\<close> for a new selector); a failure call with an integer
  \<open>excludeIndex\<close>, \<open>0 \<le> excludeIndex < 2 ^ 53\<close>, returns the key at
  \<open>(excludeIndex + 1) mod n\<close> and leaves the selector as it was.
\<close>

theorem roundRobin_selectKey_cycle:
  assumes "strategy sel = RoundRobin"
    and "2 \<le> length (keys sel)"
    and "currentIndex sel < length (keys sel)"
  shows "selectKey u (-1) sel =
           Inr (\<lparr>key = Some (keys sel ! currentIndex sel), index = Some (currentIndex sel)\<rparr>,
                sel\<lparr>currentIndex := (currentIndex sel + 1) mod length (keys sel)\<rparr>) \<and>
         selectKey_calls u (replicate k (-1)) sel =
           Inr (map (\<lambda>i. \<lparr>key = Some (keys sel ! ((currentIndex sel + i) mod length (keys sel))),
                           index = Some ((currentIndex sel + i) mod length (keys sel))\<rparr>) [0..<k],
                sel\<lparr>currentIndex := (currentIndex sel + k) mod length (keys sel)\<rparr>) \<and>
         (0 \<le> e \<and> e < 2 ^ 53 \<longrightarrow>
           selectKey u e sel =
             Inr (\<lparr>key = Some (keys sel ! nat ((e + 1) mod int (length (keys sel)))),
                   index = Some (nat ((e + 1) mod int (length (keys sel))))\<rparr>, sel))"
proof (intro conjI impI)
  show "selectKey u (-1) sel =
           Inr (\<lparr>key = Some (keys sel ! currentIndex sel), index = Some (currentIndex sel)\<rparr>,
                sel\<lparr>currentIndex := (currentIndex sel + 1) mod length (keys sel)\<rparr>)"
    using assms by (intro roundRobin_step) auto
next
  show "selectKey_calls u (replicate k (-1)) sel =
           Inr (map (\<lambda>i. \<lparr>key = Some (keys sel ! ((currentIndex sel + i) mod length (keys sel))),
                           index = Some ((currentIndex sel + i) mod length (keys sel))\<rparr>) [0..<k],
                sel\<lparr>currentIndex := (currentIndex sel + k) mod length (keys sel)\<rparr>)"
    using assms by (rule roundRobin_calls)
next
  assume e: "0 \<le> e \<and> e < 2 ^ 53"
  then have "plus_one e = e + 1"
    by (intro plus_one_exact) simp_all
  with roundRobin_failure[OF assms(1,2), of e u] e
  show "selectKey u e sel =
             Inr (\<lparr>key = Some (keys sel ! nat ((e + 1) mod int (length (keys sel)))),
                   index = Some (nat ((e + 1) mod int (length (keys sel))))\<rparr>, sel)"
    by simp
qed

theorem roundRobin_selectKey_cycle_witness:
  "strategy (ApiKeySelector_new [''k1'', ''k2'', ''k3''] RoundRobin) = RoundRobin \<and>
   2 \<le> length (keys (ApiKeySelector_new [''k1'', ''k2'', ''k3''] RoundRobin)) \<and>
   currentIndex (ApiKeySelector_new [''k1'', ''k2'', ''k3''] RoundRobin)
     < length (keys (ApiKeySelector_new [''k1'', ''k2'', ''k3''] RoundRobin)) \<and>
   (0::int) \<le> 2 \<and> (2::int) < 2 ^ 53 \<and>
   selectKey 0 (-1) (ApiKeySelector_new [''k1'', ''k2'', ''k3''] RoundRobin) =
     Inr (\<lparr>key = Some ''k1'', index = Some 0\<rparr>,
          \<lparr>currentIndex = 1, strategy = RoundRobin, keys = [''k1'', ''k2'', ''k3'']\<rparr>) \<and>
   selectKey_calls 0 (replicate 4 (-1)) (ApiKeySelector_new [''k1'', ''k2'', ''k3''] RoundRobin) =
     Inr ([\<lparr>key = Some ''k1'', index = Some 0\<rparr>, \<lparr>key = Some ''k2'', index = Some 1\<rparr>,
           \<lparr>key = Some ''k3'', index = Some 2\<rparr>, \<lparr>key = Some ''k1'', index = Some 0\<rparr>],
          \<lparr>currentIndex = 1, strategy = RoundRobin, keys = [''k1'', ''k2'', ''k3'']\<rparr>) \<and>
   selectKey 0 2 (ApiKeySelector_new [''k1'', ''k2'', ''k3''] RoundRobin) =
     Inr (\<lparr>key = Some ''k1'', index = Some 0\<rparr>,
          \<lparr>currentIndex = 0, strategy = RoundRobin, keys = [''k1'', ''k2'', ''k3'']\<rparr>)"
proof -
  let ?sel = "ApiKeySelector_new [''k1'', ''k2'', ''k3''] RoundRobin"
  have h1: "strategy ?sel = RoundRobin" by (simp add: ApiKeySelector_new_def)
  have h2: "2 \<le> length (keys ?sel)" by (simp add: ApiKeySelector_new_def)
  have h3: "currentIndex ?sel < length (keys ?sel)" by (simp add: ApiKeySelector_new_def)
  have four: "[0..<4] = [0, 1, 2, 3::nat]" by (simp add: upt_rec)
  show ?thesis
    using h1 h2 h3 roundRobin_selectKey_cycle [OF h1 h2 h3, of 0 4 2]
    by (simp add: ApiKeySelector_new_def four)
qed

subsection \<open>Failover\<close>

text \<open>
  Claim C7, as stated, fails for a failure call with a large \<open>excludeIndex\<close>, for the same
  rounding: with three keys and \<open>excludeIndex = 2 ^ 53\<close> the call stores the cursor \<open>2\<close> and
  returns the key there, where \<open>(excludeIndex + 1) mod 3\<close> is \<open>0\<close>.
\<close>

theorem failover_selectKey_counterexample:
  "selectKey 0 (2 ^ 53) (three_keys Failover) =
     Inr (\<lparr>key = Some ''k3'', index = Some 2\<rparr>, (three_keys Failover)\<lparr>currentIndex := 2\<rparr>) \<and>
   nat ((2 ^ 53 + 1) mod int (length (keys (three_keys Failover)))) = 0"
proof -
  have "strategy (three_keys Failover) = Failover"
    "2 \<le> length (keys (three_keys Failover))" "(0::int) \<le> 2 ^ 53"
    by (simp_all add: three_keys_def)
  from failover_failure[OF this, of 0] show ?thesis
    by (simp add: plus_one_rounds[simplified] three_keys_def)
qed

text \<open>
  Claim C7, amended. Under the failover strategy with at least two keys and a cursor
  inside the key list, a non-failure call \<open>selectKey(-1)\<close> returns the key at the stored
  cursor and leaves the selector unchanged; a failure call with an integer
  \<open>excludeIndex\<close>, \<open>0 \<le> excludeIndex < 2 ^ 53\<close>, stores \<open>(excludeIndex + 1) mod n\<close> as the
  cursor and returns that key, and the non-failure call that follows returns the same key
  and index again.
\<close>

theorem failover_selectKey_sticky:
  assumes "strategy sel = Failover" "2 \<le> length (keys sel)" "currentIndex sel < length (keys sel)"
  shows "selectKey u (-1) sel =
           Inr (\<lparr>key = Some (keys sel ! currentIndex sel), index = Some (currentIndex sel)\<rparr>, sel) \<and>
         (0 \<le> e \<and> e < 2 ^ 53 \<longrightarrow>
           (let j = nat ((e + 1) mod int (length (keys sel)));
                chosen = \<lparr>key = Some (keys sel ! j), index = Some j\<rparr>
            in selectKey u e sel = Inr (chosen, sel\<lparr>currentIndex := j\<rparr>) \<and>
               selectKey_calls u [e, -1] sel = Inr ([chosen, chosen], sel\<lparr>currentIndex := j\<rparr>)))"
proof (intro conjI impI)
  show "selectKey u (-1) sel =
           Inr (\<lparr>key = Some (keys sel ! currentIndex sel), index = Some (currentIndex sel)\<rparr>, sel)"
    using assms by (intro failover_nonfailure) auto
next
  assume e: "0 \<le> e \<and> e < 2 ^ 53"
  let ?j = "nat ((e + 1) mod int (length (keys sel)))"
  let ?sel' = "sel\<lparr>currentIndex := ?j\<rparr>"
  have exact: "plus_one e = e + 1"
    using e by (intro plus_one_exact) simp_all
  have j: "?j < length (keys sel)"
    using assms(2) by (intro mod_index_less) linarith
  have first: "selectKey u e sel = Inr (\<lparr>key = Some (keys sel ! ?j), index = Some ?j\<rparr>, ?sel')"
    using failover_failure[OF assms(1,2), of e u] e exact by simp
  have "selectKey u (-1) ?sel' =
      Inr (\<lparr>key = Some (keys ?sel' ! currentIndex ?sel'), index = Some (currentIndex ?sel')\<rparr>, ?sel')"
    using assms j by (intro failover_nonfailure) auto
  then have second: "selectKey u (-1) ?sel' = Inr (\<lparr>key = Some (keys sel ! ?j), index = Some ?j\<rparr>, ?sel')"
    by simp
  show "let j = ?j; chosen = \<lparr>key = Some (keys sel ! j), index = Some j\<rparr>
        in selectKey u e sel = Inr (chosen, sel\<lparr>currentIndex := j\<rparr>) \<and>
           selectKey_calls u [e, -1] sel = Inr ([chosen, chosen], sel\<lparr>currentIndex := j\<rparr>)"
    by (simp add: Let_def first second)
qed

theorem failover_selectKey_sticky_witness:
  "strategy (ApiKeySelector_new [''k1'', ''k2''] Failover) = Failover \<and>
   2 \<le> length (keys (ApiKeySelector_new [''k1'', ''k2''] Failover)) \<and>
   currentIndex (ApiKeySelector_new [''k1'', ''k2''] Failover)
     < length (keys (ApiKeySelector_new [''k1'', ''k2''] Failover)) \<and>
   (0::int) \<le> 0 \<and> (0::int) < 2 ^ 53 \<and>
   selectKey 0 (-1) (ApiKeySelector_new [''k1'', ''k2''] Failover) =
     Inr (\<lparr>key = Some ''k1'', index = Some 0\<rparr>,
          \<lparr>currentIndex = 0, strategy = Failover, keys = [''k1'', ''k2'']\<rparr>) \<and>
   selectKey_calls 0 [0, -1] (ApiKeySelector_new [''k1'', ''k2''] Failover) =
     Inr ([\<lparr>key = Some ''k2'', index = Some 1\<rparr>, \<lparr>key = Some ''k2'', index = Some 1\<rparr>],
          \<lparr>currentIndex = 1, strategy = Failover, keys = [''k1'', ''k2'']\<rparr>)"
proof -
  let ?sel = "ApiKeySelector_new [''k1'', ''k2''] Failover"
  have h1: "strategy ?sel = Failover" by (simp add: ApiKeySelector_new_def)
  have h2: "2 \<le> length (keys ?sel)" by (simp add: ApiKeySelector_new_def)
  have h3: "currentIndex ?sel < length (keys ?sel)" by (simp add: ApiKeySelector_new_def)
  show ?thesis
    using h1 h2 h3 failover_selectKey_sticky [OF h1 h2 h3, of 0 0]
    by (simp add: ApiKeySelector_new_def Let_def del: selectKey_calls.simps)
qed

subsection \<open>Random\<close>

text \<open>
  Claim C8. Under the random strategy with more than one key, a failure call with
  \<open>excludeIndex \<ge> 0\<close> returns, for every draw of the random source (a binary64 number
  \<open>u\<close> with \<open>0 \<le> u < 1\<close>, the product with the number of candidates being rounded), an
  index inside the key list that differs from \<open>excludeIndex\<close>, with the key stored there;
  with exactly one key every call returns that key at index \<open>0\<close>, whatever
  \<open>excludeIndex\<close> is.
\<close>

theorem random_selectKey_excludes:
  "(strategy sel = Random \<and> 1 < length (keys sel) \<and> 0 \<le> e \<and>
    0 \<le> u \<and> u < 1 \<and> binary64 u = u \<longrightarrow>
      (\<exists>i. selectKey u e sel = Inr (\<lparr>key = Some (keys sel ! i), index = Some i\<rparr>, sel) \<and>
           i < length (keys sel) \<and> int i \<noteq> e)) \<and>
   (length (keys sel) = 1 \<longrightarrow>
      selectKey u e sel = Inr (\<lparr>key = Some (keys sel ! 0), index = Some 0\<rparr>, sel))"
  using random_exclude [of sel e u] single_key [of sel u e] by blast

theorem random_selectKey_excludes_witness:
  "(strategy \<lparr>currentIndex = 0, strategy = Random, keys = [''k1'', ''k2'', ''k3'', ''k4'']\<rparr> = Random \<and>
    1 < length (keys \<lparr>currentIndex = 0, strategy = Random, keys = [''k1'', ''k2'', ''k3'', ''k4'']\<rparr>) \<and>
    (0::int) \<le> 1 \<and> (0::rat) \<le> 6004799503160661 / 2 ^ 53 \<and>
    (6004799503160661 / 2 ^ 53 :: rat) < 1 \<and>
    binary64 (6004799503160661 / 2 ^ 53) = 6004799503160661 / 2 ^ 53) \<and>
   (\<exists>i. selectKey (6004799503160661 / 2 ^ 53) 1
          \<lparr>currentIndex = 0, strategy = Random, keys = [''k1'', ''k2'', ''k3'', ''k4'']\<rparr> =
          Inr (\<lparr>key = Some ([''k1'', ''k2'', ''k3'', ''k4''] ! i), index = Some i\<rparr>,
               \<lparr>currentIndex = 0, strategy = Random, keys = [''k1'', ''k2'', ''k3'', ''k4'']\<rparr>) \<and>
        i < length [''k1'', ''k2'', ''k3'', ''k4''] \<and> int i \<noteq> 1) \<and>
   selectKey (6004799503160661 / 2 ^ 53) 1
       \<lparr>currentIndex = 0, strategy = Random, keys = [''k1'', ''k2'', ''k3'', ''k4'']\<rparr> =
     Inr (\<lparr>key = Some ''k4'', index = Some 3\<rparr>,
          \<lparr>currentIndex = 0, strategy = Random, keys = [''k1'', ''k2'', ''k3'', ''k4'']\<rparr>) \<and>
   length (keys \<lparr>currentIndex = 0, strategy = Random, keys = [''only'']\<rparr>) = 1 \<and>
   selectKey (6004799503160661 / 2 ^ 53) 0 \<lparr>currentIndex = 0, strategy = Random, keys = [''only'']\<rparr> =
     Inr (\<lparr>key = Some ''only'', index = Some 0\<rparr>,
          \<lparr>currentIndex = 0, strategy = Random, keys = [''only'']\<rparr>)"
proof -
  let ?u = "6004799503160661 / 2 ^ 53 :: rat"
  let ?sel = "\<lparr>currentIndex = 0, strategy = Random, keys = [''k1'', ''k2'', ''k3'', ''k4'']\<rparr>"
  let ?one = "\<lparr>currentIndex = 0, strategy = Random, keys = [''only'']\<rparr>"
  have h: "strategy ?sel = Random \<and> 1 < length (keys ?sel) \<and> (0::int) \<le> 1 \<and>
      0 \<le> ?u \<and> ?u < 1 \<and> binary64 ?u = ?u"
  proof -
    have "binary64 ?u = ?u" by code_simp
    then show ?thesis by simp
  qed
  have some: "\<exists>i. selectKey ?u 1 ?sel = Inr (\<lparr>key = Some (keys ?sel ! i), index = Some i\<rparr>, ?sel) \<and>
      i < length (keys ?sel) \<and> int i \<noteq> 1"
    using random_selectKey_excludes [of ?sel 1 ?u] h by blast
  have avail: "filter (\<lambda>i. int i \<noteq> 1) [0..<4] = [0, 2, 3]"
    by (simp add: upt_rec)
  have "floor_random ?u (Suc (Suc (Suc 0))) = 2"
    using floor_random_rounds by (simp add: numeral_3_eq_3)
  then have drawn: "selectKey ?u 1 ?sel = Inr (\<lparr>key = Some ''k4'', index = Some 3\<rparr>, ?sel)"
    by (simp add: selectKey_def selectIndex_def avail js_nth_def)
  have single: "selectKey ?u 0 ?one = Inr (\<lparr>key = Some (keys ?one ! 0), index = Some 0\<rparr>, ?one)"
    using random_selectKey_excludes [of ?one 0 ?u] by simp
  show ?thesis
    using h some drawn single by simp
qed

section \<open>The route table\<close>

subsection \<open>Lookups after the insertion and deletion loops\<close>


lemma qualifiedName_neq: "qualifiedName p m \<noteq> m"
  by (simp add: qualifiedName_def)

lemma qualifiedName_inj: "qualifiedName p m = qualifiedName p m' \<longleftrightarrow> m = m'"
  by (simp add: qualifiedName_def)

lemma map_of_deleteRoutes:
  "map_of (deleteRoutes prefix ms routes) k =
     (if k \<in> set ms \<or> k \<in> qualifiedName prefix ` set ms then None else map_of routes k)"
  by (induction ms arbitrary: routes) (auto simp: delete_conv')

lemma map_of_insertRoutes_other:
  "k \<notin> set ms \<Longrightarrow> k \<notin> qualifiedName p ` set ms \<Longrightarrow>
   map_of (insertRoutes p ms routes) k = map_of routes k"
  by (induction ms arbitrary: routes) (auto simp: update_conv' Let_def)

lemma map_of_insertRoutes_kept:
  "map_of routes k = Some r \<Longrightarrow> k \<notin> qualifiedName p ` set ms \<Longrightarrow>
   map_of (insertRoutes p ms routes) k = Some r"
proof (induction ms arbitrary: routes)
  case Nil
  then show ?case by simp
next
  case (Cons a ms)
  let ?route = "\<lparr>provider = p, model = a, fullModel = qualifiedName p a\<rparr>"
  let ?r1 = "AList.update (qualifiedName p a) ?route routes"
  let ?r2 = "if map_of ?r1 a = None then AList.update a ?route ?r1 else ?r1"
  have "k \<noteq> qualifiedName p a"
    using Cons.prems(2) by auto
  then have r1: "map_of ?r1 k = Some r"
    using Cons.prems(1) by (simp add: update_conv')
  then have "map_of ?r2 k = Some r"
    by (auto simp: update_conv')
  moreover have "k \<notin> qualifiedName p ` set ms"
    using Cons.prems(2) by auto
  ultimately have "map_of (insertRoutes p ms ?r2) k = Some r"
    by (rule Cons.IH)
  then show ?case by (simp add: Let_def)
qed

lemma map_of_insertRoutes_qualified:
  "m \<in> set ms \<Longrightarrow>
   map_of (insertRoutes p ms routes) (qualifiedName p m) =
     Some \<lparr>provider = p, model = m, fullModel = qualifiedName p m\<rparr>"
proof (induction ms arbitrary: routes)
  case Nil
  then show ?case by simp
next
  case (Cons a ms)
  show ?case
  proof (cases "m \<in> set ms")
    case True
    then show ?thesis using Cons.IH by (simp add: Let_def)
  next
    case False
    then have "m = a" using Cons.prems by simp
    moreover have "qualifiedName p a \<notin> qualifiedName p ` set ms"
      using False \<open>m = a\<close> by (auto simp: qualifiedName_inj)
    ultimately show ?thesis
      by (simp add: Let_def map_of_insertRoutes_kept update_conv' qualifiedName_neq)
  qed
qed

lemma map_of_insertRoutes_owner:
  "map_of (insertRoutes p ms routes) k = Some r \<Longrightarrow>
   map_of routes k = Some r \<or> provider r = p"
proof (induction ms arbitrary: routes)
  case Nil
  then show ?case by simp
next
  case (Cons a ms)
  let ?route = "\<lparr>provider = p, model = a, fullModel = qualifiedName p a\<rparr>"
  let ?r1 = "AList.update (qualifiedName p a) ?route routes"
  let ?r2 = "if map_of ?r1 a = None then AList.update a ?route ?r1 else ?r1"
  from Cons.prems have "map_of (insertRoutes p ms ?r2) k = Some r"
    by (simp add: Let_def)
  then have "map_of ?r2 k = Some r \<or> provider r = p"
    by (rule Cons.IH)
  then show ?case
    by (auto simp: update_conv' split: if_splits)
qed

lemma map_of_insertRoutes_bare:
  "m \<in> set ms \<Longrightarrow> \<exists>r. map_of (insertRoutes p ms routes) m = Some r"
proof (induction ms arbitrary: routes)
  case Nil
  then show ?case by simp
next
  case (Cons a ms)
  show ?case
  proof (cases "m \<in> set ms")
    case True
    then show ?thesis using Cons.IH by (simp add: Let_def)
  next
    case False
    then have [simp]: "m = a" using Cons.prems by simp
    let ?route = "\<lparr>provider = p, model = a, fullModel = qualifiedName p a\<rparr>"
    let ?r1 = "AList.update (qualifiedName p a) ?route routes"
    let ?r2 = "if map_of ?r1 a = None then AList.update a ?route ?r1 else ?r1"
    obtain r where r: "map_of ?r2 a = Some r"
      by (cases "map_of ?r1 a") (auto simp: update_conv')
    have "insertRoutes p (a # ms) routes = insertRoutes p ms ?r2"
      by (simp add: Let_def)
    moreover have "\<exists>r'. map_of (insertRoutes p ms ?r2) a = Some r'"
    proof (cases "a \<in> qualifiedName p ` set ms")
      case True
      then obtain m' where "m' \<in> set ms" "a = qualifiedName p m'" by auto
      then show ?thesis using map_of_insertRoutes_qualified[of m' ms p ?r2] by simp
    next
      case False
      then show ?thesis using map_of_insertRoutes_kept[OF r, of p ms] by simp
    qed
    ultimately show ?thesis by simp
  qed
qed

subsection \<open>Registration and deletion\<close>

lemma registerProvider_tables:
  "providers (snd (registerProvider req s)) = AList.update (name req) req (providers s)"
  "keySelectors (snd (registerProvider req s)) =
     AList.update (name req)
       (ApiKeySelector_new (apiKey req) (case apiKeyStrategy req of None \<Rightarrow> RoundRobin | Some st \<Rightarrow> st))
       (keySelectors s)"
  "modelRoutes (snd (registerProvider req s)) = insertRoutes (name req) (models req) (modelRoutes s)"
  "logger (snd (registerProvider req s)) = logger s"
  "fst (registerProvider req s) = req"
  by (simp_all add: registerProvider_def Let_def)

lemma registerProvider_route_kept:
  assumes "map_of (modelRoutes s) k = Some r"
  shows "\<exists>r'. map_of (modelRoutes (snd (registerProvider req s))) k = Some r' \<and>
              (r' = r \<or> provider r' = name req) \<and>
              (k \<notin> qualifiedName (name req) ` set (models req) \<longrightarrow> r' = r)"
proof (cases "k \<in> qualifiedName (name req) ` set (models req)")
  case True
  then obtain m where "m \<in> set (models req)" "k = qualifiedName (name req) m" by auto
  then show ?thesis
    using True by (simp add: registerProvider_tables map_of_insertRoutes_qualified)
next
  case False
  then show ?thesis
    using assms by (simp add: registerProvider_tables map_of_insertRoutes_kept)
qed

lemma deleteProvider_unknown:
  "map_of (providers s) n = None \<Longrightarrow> deleteProvider n s = (False, s)"
  by (simp add: deleteProvider_def)

lemma deleteProvider_known:
  assumes "map_of (providers s) n = Some p"
  shows "fst (deleteProvider n s) = True"
    and "map_of (providers (snd (deleteProvider n s))) n = None"
    and "keySelectors (snd (deleteProvider n s)) = keySelectors s"
    and "m \<in> set (models p) \<Longrightarrow> map_of (modelRoutes (snd (deleteProvider n s))) m = None"
    and "m \<in> set (models p) \<Longrightarrow>
         map_of (modelRoutes (snd (deleteProvider n s))) (qualifiedName (name p) m) = None"
  using assms by (simp_all add: deleteProvider_def delete_conv' map_of_deleteRoutes)

section \<open>The registry\<close>

lemmas service_defs =
  ProviderService_new_def ProviderService_empty_def initProvider_def invalidConfig_def falsy_def
  falsy_api_key_def isArray_def arrayOf_def js_template_def registerProvider_def
  ApiKeySelector_new_def qualifiedName_def updateProvider_def mergeUpdates_def deleteProvider_def
  resolveModelRoute_def getAvailableModelNames_def Let_def

lemmas example_defs =
  config_P_def config_P2_def config_A_def config_B_def config_bad_def models_update_def
  provider_P_first_def provider_P_second_def provider_unchecked_def gemini_request_def
  gemini_provider_def

subsection \<open>Updating a model list\<close>

text \<open>
  Claim C1. A provider \<open>P\<close> loaded from the configuration with the model list \<open>[m1]\<close> has its
  model list updated to \<open>[m2]\<close>. The bare entry \<open>m1\<close> is removed and both entries for \<open>m2\<close>
  are inserted, but the qualified entry \<open>P,m1\<close> is still in the route table afterwards and
  still resolves to \<open>P\<close>, with the target model \<open>m1\<close> that \<open>P\<close> no longer lists. The deletion
  loop of \<^verbatim>\<open>updateProvider\<close> builds the qualified key from \<^verbatim>\<open>provider.id\<close>, a property that
  a provider loaded from the configuration does not have, where the insertion loops and
  \<^verbatim>\<open>deleteProvider\<close> build it from \<^verbatim>\<open>provider.name\<close>.
\<close>

theorem updateProvider_leaves_qualified_route:
  "let s0 = ProviderService_new (\<lambda>_. None) (Some [config_P]);
       s1 = snd (updateProvider 1 ''P'' (models_update [''m2'']) s0)
   in map fst (modelRoutes s0) = [''P,m1'', ''m1''] \<and>
      map fst (modelRoutes s1) = [''P,m1'', ''P,m2'', ''m2''] \<and>
      map_of (modelRoutes s1) ''m1'' = None \<and>
      map_of (modelRoutes s1) ''P,m1'' =
        Some \<lparr>provider = ''P'', model = ''m1'', fullModel = ''P,m1''\<rparr> \<and>
      map_option (models \<circ> resolved_provider) (resolveModelRoute ''P,m1'' s1) = Some [''m2''] \<and>
      map_option targetModel (resolveModelRoute ''P,m1'' s1) = Some ''m1''"
  by (simp add: service_defs example_defs)

subsection \<open>The first claim of a bare name\<close>

text \<open>
  Claim C2. Providers \<open>A\<close> and \<open>B\<close> are loaded in this order, both serving \<open>chat\<close>. After
  loading, the bare name \<open>chat\<close> resolves to \<open>A\<close> and the qualified names \<open>A,chat\<close> and
  \<open>B,chat\<close> to their own providers. A model list update of \<open>B\<close> then removes the bare
  entry held by \<open>A\<close>, since the deletion loop deletes the bare key without looking at the
  provider of the route stored there: when the new list of \<open>B\<close> has \<open>chat\<close>, the bare name
  resolves to \<open>B\<close> afterwards, and when it has not, the bare name no longer resolves although
  \<open>A\<close> still serves it. Deleting \<open>B\<close> has the same effect.
\<close>

theorem updateProvider_takes_over_bare_route:
  "let s0 = ProviderService_new (\<lambda>_. None) (Some [config_A, config_B]);
       s1 = snd (updateProvider 1 ''B'' (models_update [''chat'']) s0);
       s2 = snd (updateProvider 1 ''B'' (models_update [''other'']) s0);
       s3 = snd (deleteProvider ''B'' s0)
   in map_option (name \<circ> resolved_provider) (resolveModelRoute ''chat'' s0) = Some ''A'' \<and>
      map_option (name \<circ> resolved_provider) (resolveModelRoute ''A,chat'' s0) = Some ''A'' \<and>
      map_option (name \<circ> resolved_provider) (resolveModelRoute ''B,chat'' s0) = Some ''B'' \<and>
      map_option (name \<circ> resolved_provider) (resolveModelRoute ''chat'' s1) = Some ''B'' \<and>
      resolveModelRoute ''chat'' s2 = None \<and>
      map_option models (map_of (providers s2) ''A'') = Some [''chat''] \<and>
      resolveModelRoute ''chat'' s3 = None \<and>
      map_option models (map_of (providers s3) ''A'') = Some [''chat'']"
  by (simp add: service_defs example_defs)

subsection \<open>Deleting a provider\<close>

text \<open>
  Claim C3. A provider \<open>P\<close> with the keys \<open>[k1, k2]\<close> is loaded and then deleted.
  \<^verbatim>\<open>deleteProvider\<close> returns true and removes the provider record and its routes, and the
  model listing is empty afterwards; the key selector of \<open>P\<close> stays in \<^verbatim>\<open>keySelectors\<close>,
  which \<^verbatim>\<open>deleteProvider\<close> never touches, so \<^verbatim>\<open>selectApiKey\<close> still hands out the first
  key of the deleted provider and \<^verbatim>\<open>getApiKeyCount\<close> still counts two keys.
\<close>

theorem deleteProvider_keeps_key_selector:
  "let s0 = ProviderService_new (\<lambda>_. None) (Some [config_P2]);
       s1 = snd (deleteProvider ''P'' s0)
   in fst (deleteProvider ''P'' s0) = True \<and>
      providers s1 = [] \<and> modelRoutes s1 = [] \<and> getAvailableModelNames s1 = [] \<and>
      map_of (keySelectors s1) ''P'' =
        Some \<lparr>currentIndex = 0, strategy = RoundRobin, keys = [''k1'', ''k2'']\<rparr> \<and>
      map_sum id fst (selectApiKey 0 ''P'' (-1) s1) = Inr \<lparr>key = Some ''k1'', index = Some 0\<rparr> \<and>
      getApiKeyCount ''P'' s1 = Inr 2"
  by (simp add: service_defs example_defs selectApiKey_def selectKey_def selectIndex_def
      js_nth_def getApiKeyCount_def getKeyCount_def)

subsection \<open>Key selection for an unknown provider\<close>

text \<open>
  Claim C4, as stated, fails for \<^verbatim>\<open>getApiKeyCount\<close>: for a name that was never registered
  it returns the count \<open>0\<close> and does not fail.
\<close>

theorem getApiKeyCount_unknown_counterexample:
  "map_of (providers (ProviderService_new (\<lambda>_. None) (Some [config_P2]))) ''ghost'' = None \<and>
   getApiKeyCount ''ghost'' (ProviderService_new (\<lambda>_. None) (Some [config_P2])) = Inr 0 \<and>
   getApiKeyCount ''ghost'' (ProviderService_new (\<lambda>_. None) (Some [config_P2]))
     \<noteq> Inl (UnknownProvider ''ghost'')"
  by (simp add: service_defs example_defs getApiKeyCount_def)

text \<open>
  Claim C4, amended. For every provider name that has no key selector (every name that was
  never registered), \<^verbatim>\<open>selectApiKey\<close> fails with \<open>UnknownProvider\<close>, whatever
  \<open>excludeIndex\<close> is, and \<^verbatim>\<open>getApiKeyCount\<close> returns \<open>0\<close>.
\<close>

theorem unknown_provider_key_selection:
  assumes "map_of (keySelectors s) n = None"
  shows "selectApiKey u n e s = Inl (UnknownProvider n) \<and> getApiKeyCount n s = Inr 0"
  using assms by (simp add: selectApiKey_def getApiKeyCount_def)

theorem unknown_provider_key_selection_witness:
  "map_of (keySelectors (ProviderService_new (\<lambda>_. None) (Some [config_P2]))) ''ghost'' = None \<and>
   selectApiKey 0 ''ghost'' (-1) (ProviderService_new (\<lambda>_. None) (Some [config_P2])) =
     Inl (UnknownProvider ''ghost'') \<and>
   getApiKeyCount ''ghost'' (ProviderService_new (\<lambda>_. None) (Some [config_P2])) = Inr 0"
proof -
  let ?s = "ProviderService_new (\<lambda>_. None) (Some [config_P2])"
  have h: "map_of (keySelectors ?s) ''ghost'' = None"
    by (simp add: service_defs example_defs)
  from h unknown_provider_key_selection [OF h, of 0 "-1"] show ?thesis
    by (intro conjI) simp_all
qed

subsection \<open>Validation of configured providers\<close>

lemma initProvider_invalid:
  "invalidConfig c \<Longrightarrow>
   initProvider ts c s = s\<lparr>logger := logger s @ [LogWarn (js_template (cfg_name c))]\<rparr>"
  by (simp add: initProvider_def)

lemma initProvider_cong:
  assumes "providers s = providers s'" "modelRoutes s = modelRoutes s'" "keySelectors s = keySelectors s'"
  shows "providers (initProvider ts c s) = providers (initProvider ts c s') \<and>
         modelRoutes (initProvider ts c s) = modelRoutes (initProvider ts c s') \<and>
         keySelectors (initProvider ts c s) = keySelectors (initProvider ts c s')"
  using assms
  by (simp add: initProvider_def registerProvider_tables Let_def split: sum.splits option.splits)

lemma initializeFromProvidersArray_filter:
  assumes "providers s = providers s'" "modelRoutes s = modelRoutes s'" "keySelectors s = keySelectors s'"
  shows "providers (initializeFromProvidersArray ts cs s) =
           providers (initializeFromProvidersArray ts (filter (\<lambda>c. \<not> invalidConfig c) cs) s') \<and>
         modelRoutes (initializeFromProvidersArray ts cs s) =
           modelRoutes (initializeFromProvidersArray ts (filter (\<lambda>c. \<not> invalidConfig c) cs) s') \<and>
         keySelectors (initializeFromProvidersArray ts cs s) =
           keySelectors (initializeFromProvidersArray ts (filter (\<lambda>c. \<not> invalidConfig c) cs) s')"
  using assms
proof (induction cs arbitrary: s s')
  case Nil
  then show ?case by simp
next
  case (Cons c cs)
  show ?case
  proof (cases "invalidConfig c")
    case True
    then have "providers (initProvider ts c s) = providers s'"
      "modelRoutes (initProvider ts c s) = modelRoutes s'"
      "keySelectors (initProvider ts c s) = keySelectors s'"
      using Cons.prems by (simp_all add: initProvider_invalid)
    from Cons.IH[OF this] True show ?thesis by simp
  next
    case False
    have "providers (initProvider ts c s) = providers (initProvider ts c s')"
      "modelRoutes (initProvider ts c s) = modelRoutes (initProvider ts c s')"
      "keySelectors (initProvider ts c s) = keySelectors (initProvider ts c s')"
      using initProvider_cong[OF Cons.prems, of ts c] by simp_all
    from Cons.IH[OF this] False show ?thesis by simp
  qed
qed

lemma set_update_subset: "set (AList.update k v al) \<subseteq> insert (k, v) (set al)"
  by (induction al) auto

lemma initProvider_nonempty:
  assumes "\<forall>(n, p) \<in> set (providers s). (name p \<noteq> [] \<and> baseUrl p \<noteq> [] \<and> apiKey p \<noteq> [])"
  shows "\<forall>(n, p) \<in> set (providers (initProvider ts c s)). (name p \<noteq> [] \<and> baseUrl p \<noteq> [] \<and> apiKey p \<noteq> [])"
proof (cases "invalidConfig c")
  case True
  then show ?thesis using assms by (simp add: initProvider_invalid)
next
  case False
  then obtain n b ks where c: "cfg_name c = Some n" "n \<noteq> []" "api_base_url c = Some b" "b \<noteq> []"
      "api_key c = ApiKeyArray ks" "ks \<noteq> []"
    by (cases "cfg_name c"; cases "api_base_url c"; cases "api_key c")
       (auto simp: invalidConfig_def falsy_def falsy_api_key_def isArray_def arrayOf_def)
  show ?thesis
  proof (cases "case cfg_transformer c of None \<Rightarrow> Inr [] | Some t \<Rightarrow> resolveKeys ts t []")
    case (Inl err)
    then show ?thesis using assms False by (simp add: initProvider_def)
  next
    case (Inr tr)
    then show ?thesis
      using assms False c set_update_subset
      by (fastforce simp: initProvider_def registerProvider_tables Let_def
          js_template_def arrayOf_def)
  qed
qed

lemma initializeFromProvidersArray_nonempty:
  assumes "\<forall>(n, p) \<in> set (providers s). (name p \<noteq> [] \<and> baseUrl p \<noteq> [] \<and> apiKey p \<noteq> [])"
  shows "\<forall>(n, p) \<in> set (providers (initializeFromProvidersArray ts cs s)). (name p \<noteq> [] \<and> baseUrl p \<noteq> [] \<and> apiKey p \<noteq> [])"
  using assms
proof (induction cs arbitrary: s)
  case Nil
  then show ?case by simp
next
  case (Cons c cs)
  show ?case
    using Cons.IH[OF initProvider_nonempty[OF Cons.prems]] by simp
qed

lemma ProviderService_new_nonempty:
  "\<forall>(n, p) \<in> set (providers (ProviderService_new ts cfg)). (name p \<noteq> [] \<and> baseUrl p \<noteq> [] \<and> apiKey p \<noteq> [])"
proof (cases cfg)
  case None
  then show ?thesis by (simp add: ProviderService_new_def ProviderService_empty_def)
next
  case (Some cs)
  have "\<forall>(n, p) \<in> set (providers ProviderService_empty). (name p \<noteq> [] \<and> baseUrl p \<noteq> [] \<and> apiKey p \<noteq> [])"
    by (simp add: ProviderService_empty_def)
  from initializeFromProvidersArray_nonempty[OF this] Some show ?thesis
    by (simp add: ProviderService_new_def)
qed

lemma invalidConfig_iff:
  "invalidConfig c \<longleftrightarrow>
     cfg_name c = None \<or> cfg_name c = Some [] \<or>
     api_base_url c = None \<or> api_base_url c = Some [] \<or>
     (\<forall>ks. api_key c = ApiKeyArray ks \<longrightarrow> ks = [])"
  by (cases "api_key c")
     (auto simp: invalidConfig_def falsy_def falsy_api_key_def isArray_def arrayOf_def)

text \<open>
  Claim C5, as stated, fails for \<^verbatim>\<open>registerProvider\<close> itself, which checks nothing: a
  request with an empty name, an empty base URL and no keys is stored, with a key selector
  and with routes.
\<close>

theorem registerProvider_unvalidated_counterexample:
  "providers (snd (registerProvider provider_unchecked ProviderService_empty)) =
     [([], provider_unchecked)] \<and>
   apiKey provider_unchecked = [] \<and>
   keySelectors (snd (registerProvider provider_unchecked ProviderService_empty)) =
     [([], \<lparr>currentIndex = 0, strategy = RoundRobin, keys = []\<rparr>)] \<and>
   map fst (modelRoutes (snd (registerProvider provider_unchecked ProviderService_empty))) =
     ['',m'', ''m'']"
  by (simp add: service_defs example_defs)

text \<open>
  Claim C5, amended. The check is made by the bulk initialisation, not by
  \<^verbatim>\<open>registerProvider\<close>. A configured entry is invalid exactly when its name or its base URL
  is missing or empty, or its \<^verbatim>\<open>api_key\<close> is missing, not an array, or an empty array. Such
  an entry only adds a warning to the log: no provider is stored, no key selector is created
  and no route is inserted, and the remaining entries are processed, the three tables ending
  up as if the invalid entries had not been in the list. So every provider that the
  constructor stores has a name, a base URL and at least one key.
\<close>

theorem initializeFromProvidersArray_skips_invalid:
  "(invalidConfig c \<longleftrightarrow>
      cfg_name c = None \<or> cfg_name c = Some [] \<or>
      api_base_url c = None \<or> api_base_url c = Some [] \<or>
      (\<forall>ks. api_key c = ApiKeyArray ks \<longrightarrow> ks = [])) \<and>
   (invalidConfig c \<longrightarrow>
      initProvider ts c s = s\<lparr>logger := logger s @ [LogWarn (js_template (cfg_name c))]\<rparr>) \<and>
   providers (initializeFromProvidersArray ts cs s) =
     providers (initializeFromProvidersArray ts (filter (\<lambda>c. \<not> invalidConfig c) cs) s) \<and>
   modelRoutes (initializeFromProvidersArray ts cs s) =
     modelRoutes (initializeFromProvidersArray ts (filter (\<lambda>c. \<not> invalidConfig c) cs) s) \<and>
   keySelectors (initializeFromProvidersArray ts cs s) =
     keySelectors (initializeFromProvidersArray ts (filter (\<lambda>c. \<not> invalidConfig c) cs) s) \<and>
   (\<forall>(n, p) \<in> set (providers (ProviderService_new ts cfg)).
      name p \<noteq> [] \<and> baseUrl p \<noteq> [] \<and> apiKey p \<noteq> [])"
  using invalidConfig_iff [of c] initProvider_invalid [of c ts s]
    initializeFromProvidersArray_filter [of s s ts cs]
    ProviderService_new_nonempty [of ts cfg]
  by blast

theorem initializeFromProvidersArray_skips_invalid_witness:
  "api_key config_bad = ApiKeyArray [] \<and>
   invalidConfig config_bad \<and>
   initProvider (\<lambda>_. None) config_bad ProviderService_empty =
     ProviderService_empty\<lparr>logger := [LogWarn ''bad'']\<rparr> \<and>
   providers (initializeFromProvidersArray (\<lambda>_. None) [config_bad, config_P2] ProviderService_empty) =
     providers (initializeFromProvidersArray (\<lambda>_. None) [config_P2] ProviderService_empty) \<and>
   (''P'', snd (hd (providers (ProviderService_new (\<lambda>_. None) (Some [config_bad, config_P2])))))
     \<in> set (providers (ProviderService_new (\<lambda>_. None) (Some [config_bad, config_P2]))) \<and>
   apiKey (snd (hd (providers (ProviderService_new (\<lambda>_. None) (Some [config_bad, config_P2])))))
     \<noteq> []"
proof -
  let ?new = "ProviderService_new (\<lambda>_. None) (Some [config_bad, config_P2])"
  have h: "invalidConfig config_bad"
    by (simp add: example_defs invalidConfig_def falsy_def falsy_api_key_def isArray_def arrayOf_def)
  have empty: "api_key config_bad = ApiKeyArray []"
    by (simp add: config_bad_def)
  have keep: "filter (\<lambda>c. \<not> invalidConfig c) [config_bad, config_P2] = [config_P2]"
    by (simp add: example_defs invalidConfig_def falsy_def falsy_api_key_def isArray_def arrayOf_def)
  have mem: "(''P'', snd (hd (providers ?new))) \<in> set (providers ?new)"
    by (simp add: service_defs example_defs)
  note inst = initializeFromProvidersArray_skips_invalid
      [of config_bad "\<lambda>_. None" ProviderService_empty "[config_bad, config_P2]"
          "Some [config_bad, config_P2]"]
  from inst h have "initProvider (\<lambda>_. None) config_bad ProviderService_empty =
      ProviderService_empty\<lparr>logger := logger ProviderService_empty @
        [LogWarn (js_template (cfg_name config_bad))]\<rparr>"
    by blast
  then have warned: "initProvider (\<lambda>_. None) config_bad ProviderService_empty =
      ProviderService_empty\<lparr>logger := [LogWarn ''bad'']\<rparr>"
    by (simp add: js_template_def ProviderService_empty_def config_bad_def)
  from inst have "providers (initializeFromProvidersArray (\<lambda>_. None) [config_bad, config_P2]
        ProviderService_empty) =
      providers (initializeFromProvidersArray (\<lambda>_. None)
        (filter (\<lambda>c. \<not> invalidConfig c) [config_bad, config_P2]) ProviderService_empty)"
    by blast
  then have skipped: "providers (initializeFromProvidersArray (\<lambda>_. None) [config_bad, config_P2]
        ProviderService_empty) =
      providers (initializeFromProvidersArray (\<lambda>_. None) [config_P2] ProviderService_empty)"
    by (simp only: keep)
  from inst have "\<forall>(n, p) \<in> set (providers ?new). name p \<noteq> [] \<and> baseUrl p \<noteq> [] \<and> apiKey p \<noteq> []"
    by blast
  with mem have stored: "apiKey (snd (hd (providers ?new))) \<noteq> []"
    by blast
  show ?thesis
    using empty h warned skipped mem stored by (intro conjI)
qed

section \<open>The Gemini transformer\<close>

text \<open>
  Claim C9, as stated, fails for a provider whose base URL is not a URL, which the registry
  can hold since \<^verbatim>\<open>registerProvider\<close> checks nothing: for the provider registered with an
  empty base URL the \<^verbatim>\<open>URL\<close> constructor throws, the call is rejected and no request is
  produced.
\<close>

theorem transformRequestIn_invalid_base_counterexample:
  "map_of (providers (snd (registerProvider provider_unchecked ProviderService_empty))) [] =
     Some provider_unchecked \<and>
   arg_baseUrl (providerArg provider_unchecked) = [] \<and>
   transformRequestIn content_body tabulated_URL gemini_request (providerArg provider_unchecked) =
     Inl InvalidURL"
  by (simp add: transformRequestIn_def content_body_def tabulated_URL_def providerArg_def
      provider_unchecked_def gemini_request_def registerProvider_def ProviderService_empty_def
      Let_def)

text \<open>
  Claim C9, amended. Let the reference be \<^verbatim>\<open>./<model>:streamGenerateContent?alt=sse\<close> when
  the request is streaming and \<^verbatim>\<open>./<model>:generateContent\<close> otherwise. When the body
  builder returns a body and the \<^verbatim>\<open>URL\<close> constructor returns a URL for the reference
  against the provider's base URL, \<^verbatim>\<open>transformRequestIn\<close> produces the request with that
  body and that URL, whose headers are the credential (the first key of an array, or the
  single key) under \<^verbatim>\<open>x-goog-api-key\<close> and \<^verbatim>\<open>Authorization\<close> explicitly set to undefined,
  and no other. When the body builder throws, or the constructor throws (the base URL is
  not a URL), the call fails with that error and produces no request.
\<close>

theorem transformRequestIn_wire_format:
  "(let reference = ''./'' @ request_model r @ '':'' @
                      (if stream r = Some True then ''streamGenerateContent?alt=sse''
                       else ''generateContent'')
    in (buildRequestBody r = Inr b \<and> newURL reference (arg_baseUrl p) = Inr target \<longrightarrow>
          transformRequestIn buildRequestBody newURL r p =
            Inr \<lparr>body = b, url = target,
                 headers =
                   [(''x-goog-api-key'',
                     case arg_apiKey p of KeyArray ks \<Rightarrow> js_nth ks 0 | KeyString k \<Rightarrow> Some k),
                    (''Authorization'', None)]\<rparr>) \<and>
       (buildRequestBody r = Inl err \<longrightarrow>
          transformRequestIn buildRequestBody newURL r p = Inl err) \<and>
       (buildRequestBody r = Inr b \<and> newURL reference (arg_baseUrl p) = Inl err \<longrightarrow>
          transformRequestIn buildRequestBody newURL r p = Inl err))"
  by (simp add: transformRequestIn_def truthy_def Let_def)

theorem transformRequestIn_wire_format_witness:
  "content_body gemini_request = Inr ''hello'' \<and>
   tabulated_URL (''./'' @ request_model gemini_request @ '':'' @
                    (if stream gemini_request = Some True then ''streamGenerateContent?alt=sse''
                     else ''generateContent''))
                 (arg_baseUrl gemini_provider) =
     Inr ''https://g.example/v1beta/models/gemini-pro:streamGenerateContent?alt=sse'' \<and>
   transformRequestIn content_body tabulated_URL gemini_request gemini_provider =
     Inr \<lparr>body = ''hello'',
          url = ''https://g.example/v1beta/models/gemini-pro:streamGenerateContent?alt=sse'',
          headers = [(''x-goog-api-key'', Some ''k1''), (''Authorization'', None)]\<rparr> \<and>
   failing_body gemini_request = Inl (Thrown ''buildRequestBody'') \<and>
   transformRequestIn failing_body tabulated_URL gemini_request gemini_provider =
     Inl (Thrown ''buildRequestBody'') \<and>
   tabulated_URL (''./'' @ request_model gemini_request @ '':'' @
                    (if stream gemini_request = Some True then ''streamGenerateContent?alt=sse''
                     else ''generateContent''))
                 (arg_baseUrl (providerArg provider_unchecked)) = Inl InvalidURL \<and>
   transformRequestIn content_body tabulated_URL gemini_request (providerArg provider_unchecked) =
     Inl InvalidURL"
proof -
  let ?reference = "''./'' @ request_model gemini_request @ '':'' @
      (if stream gemini_request = Some True then ''streamGenerateContent?alt=sse''
       else ''generateContent'')"
  let ?target = "''https://g.example/v1beta/models/gemini-pro:streamGenerateContent?alt=sse''"
  have body: "content_body gemini_request = Inr ''hello''"
    by (simp add: content_body_def gemini_request_def)
  have no_body: "failing_body gemini_request = Inl (Thrown ''buildRequestBody'')"
    by (simp add: failing_body_def)
  have target: "tabulated_URL ?reference (arg_baseUrl gemini_provider) = Inr ?target"
    by (simp add: tabulated_URL_def gemini_request_def gemini_provider_def)
  have no_target: "tabulated_URL ?reference (arg_baseUrl (providerArg provider_unchecked)) =
      Inl InvalidURL"
    by (simp add: tabulated_URL_def providerArg_def provider_unchecked_def)
  have key: "(case arg_apiKey gemini_provider of KeyArray ks \<Rightarrow> js_nth ks 0 | KeyString k \<Rightarrow> Some k)
      = Some ''k1''"
    by (simp add: gemini_provider_def js_nth_def)
  have produced: "transformRequestIn content_body tabulated_URL gemini_request gemini_provider =
      Inr \<lparr>body = ''hello'', url = ?target,
           headers = [(''x-goog-api-key'', Some ''k1''), (''Authorization'', None)]\<rparr>"
    using transformRequestIn_wire_format
        [of gemini_request content_body "''hello''" tabulated_URL gemini_provider ?target]
      body target
    by (simp only: Let_def key)
  have body_failed: "transformRequestIn failing_body tabulated_URL gemini_request gemini_provider =
      Inl (Thrown ''buildRequestBody'')"
    using transformRequestIn_wire_format
        [of gemini_request failing_body _ tabulated_URL gemini_provider _ "Thrown ''buildRequestBody''"]
      no_body
    by (simp only: Let_def)
  have url_failed: "transformRequestIn content_body tabulated_URL gemini_request
        (providerArg provider_unchecked) = Inl InvalidURL"
    using transformRequestIn_wire_format
        [of gemini_request content_body "''hello''" tabulated_URL "providerArg provider_unchecked" _
            InvalidURL]
      body no_target
    by (simp only: Let_def)
  show ?thesis
    using body target produced no_body body_failed no_target url_failed by (intro conjI)
qed

section \<open>Registering a name again\<close>

text \<open>
  Claim C10, as stated, fails when a model of the old list is spelled like the qualified
  name of a model of the new list (bare and qualified names share one table). Provider
  \<open>P\<close> is registered with the model \<open>P,x\<close> and then again with the model \<open>x\<close>: the bare
  entry \<open>P,x\<close> of the first registration, a route to the model \<open>P,x\<close>, is overwritten by the
  qualified entry of \<open>x\<close>, a route to the model \<open>x\<close>, so it does not remain as it was.
\<close>

theorem registerProvider_again_counterexample:
  "name provider_Q_second = name provider_Q_first \<and>
   ''P,x'' \<in> set (models provider_Q_first) \<and>
   ''P,x'' \<notin> set (models provider_Q_second) \<and>
   map_of (modelRoutes (snd (registerProvider provider_Q_first ProviderService_empty))) ''P,x'' =
     Some \<lparr>provider = ''P'', model = ''P,x'', fullModel = ''P,P,x''\<rparr> \<and>
   map_of (modelRoutes (snd (registerProvider provider_Q_second
       (snd (registerProvider provider_Q_first ProviderService_empty))))) ''P,x'' =
     Some \<lparr>provider = ''P'', model = ''x'', fullModel = ''P,x''\<rparr> \<and>
   map_option targetModel (resolveModelRoute ''P,x''
       (snd (registerProvider provider_Q_first ProviderService_empty))) = Some ''P,x'' \<and>
   map_option targetModel (resolveModelRoute ''P,x''
       (snd (registerProvider provider_Q_second
         (snd (registerProvider provider_Q_first ProviderService_empty))))) = Some ''x''"
  by (simp add: service_defs provider_Q_first_def provider_Q_second_def)

text \<open>
  Claim C10, amended. When a provider name is registered a second time, the provider
  record and the key selector under that name are replaced by those of the new request
  (the selector starts at cursor \<open>0\<close> with the new keys and strategy), and no route of the
  first registration is deleted. For a model \<open>m\<close> of the old list that is not in the new
  list, the qualified entry is unchanged, the route to \<open>m\<close>, and resolves to the new
  record. The bare entry \<open>m\<close>, when the first registration left it with this provider, is
  unchanged and resolves to the new record, unless \<open>m\<close> is spelled like the qualified name
  of a model \<open>m'\<close> of the new list; then the entry under \<open>m\<close> is the qualified route to \<open>m'\<close>.
\<close>

theorem registerProvider_again_keeps_routes:
  assumes "name new = name old" and "m \<in> set (models old)" and "m \<notin> set (models new)"
  shows "let s1 = snd (registerProvider old s); s2 = snd (registerProvider new s1) in
         map_of (providers s2) (name old) = Some new \<and>
         map_of (keySelectors s2) (name old) =
           Some \<lparr>currentIndex = 0,
                 strategy = (case apiKeyStrategy new of None \<Rightarrow> RoundRobin | Some st \<Rightarrow> st),
                 keys = apiKey new\<rparr> \<and>
         map_of (modelRoutes s2) (qualifiedName (name old) m) =
           Some \<lparr>provider = name old, model = m, fullModel = qualifiedName (name old) m\<rparr> \<and>
         resolveModelRoute (qualifiedName (name old) m) s2 =
           Some \<lparr>resolved_provider = new, originalModel = qualifiedName (name old) m, targetModel = m\<rparr> \<and>
         (\<forall>r. map_of (modelRoutes s1) m = Some r \<and> provider r = name old \<and>
              m \<notin> qualifiedName (name new) ` set (models new) \<longrightarrow>
            map_of (modelRoutes s2) m = Some r \<and>
            resolveModelRoute m s2 =
              Some \<lparr>resolved_provider = new, originalModel = m, targetModel = model r\<rparr>) \<and>
         (\<forall>m'. m' \<in> set (models new) \<and> m = qualifiedName (name new) m' \<longrightarrow>
            map_of (modelRoutes s2) m = Some \<lparr>provider = name new, model = m', fullModel = m\<rparr>)"
proof -
  let ?s1 = "snd (registerProvider old s)"
  let ?s2 = "snd (registerProvider new ?s1)"
  let ?q = "qualifiedName (name old) m"
  let ?route = "\<lparr>provider = name old, model = m, fullModel = ?q\<rparr>"
  have prov: "map_of (providers ?s2) (name old) = Some new"
    using assms(1) by (simp add: registerProvider_tables update_conv')
  have sel: "map_of (keySelectors ?s2) (name old) =
           Some \<lparr>currentIndex = 0,
                 strategy = (case apiKeyStrategy new of None \<Rightarrow> RoundRobin | Some st \<Rightarrow> st),
                 keys = apiKey new\<rparr>"
    using assms(1) by (simp add: registerProvider_tables update_conv' ApiKeySelector_new_def)
  have q1: "map_of (modelRoutes ?s1) ?q = Some ?route"
    using assms(2) by (simp add: registerProvider_tables map_of_insertRoutes_qualified)
  have "?q \<notin> qualifiedName (name new) ` set (models new)"
    using assms(1,3) by (auto simp: qualifiedName_inj)
  with registerProvider_route_kept[OF q1, of new]
  have q2: "map_of (modelRoutes ?s2) ?q = Some ?route"
    by auto
  have res: "resolveModelRoute ?q ?s2 =
           Some \<lparr>resolved_provider = new, originalModel = ?q, targetModel = m\<rparr>"
    using q2 prov by (simp add: resolveModelRoute_def)
  have bare: "map_of (modelRoutes ?s2) m = Some r \<and>
      resolveModelRoute m ?s2 =
        Some \<lparr>resolved_provider = new, originalModel = m, targetModel = model r\<rparr>"
    if r: "map_of (modelRoutes ?s1) m = Some r" "provider r = name old"
      "m \<notin> qualifiedName (name new) ` set (models new)" for r
  proof -
    from registerProvider_route_kept[OF r(1), of new] r(3)
    have kept: "map_of (modelRoutes ?s2) m = Some r"
      by auto
    then have "resolveModelRoute m ?s2 =
        Some \<lparr>resolved_provider = new, originalModel = m, targetModel = model r\<rparr>"
      using r(2) prov by (simp add: resolveModelRoute_def)
    with kept show ?thesis by simp
  qed
  have clash: "map_of (modelRoutes ?s2) m = Some \<lparr>provider = name new, model = m', fullModel = m\<rparr>"
    if "m' \<in> set (models new)" "m = qualifiedName (name new) m'" for m'
    using that by (simp add: registerProvider_tables map_of_insertRoutes_qualified)
  show ?thesis
    unfolding Let_def using prov sel q2 res bare clash by blast
qed

theorem registerProvider_again_keeps_routes_witness:
  "name provider_P_second = name provider_P_first \<and>
   ''m1'' \<in> set (models provider_P_first) \<and>
   ''m1'' \<notin> set (models provider_P_second) \<and>
   map_of (modelRoutes (snd (registerProvider provider_P_first ProviderService_empty))) ''m1'' =
     Some \<lparr>provider = ''P'', model = ''m1'', fullModel = ''P,m1''\<rparr> \<and>
   provider \<lparr>provider = ''P'', model = ''m1'', fullModel = ''P,m1''\<rparr> = name provider_P_first \<and>
   ''m1'' \<notin> qualifiedName (name provider_P_second) ` set (models provider_P_second) \<and>
   name provider_Q_second = name provider_Q_first \<and>
   ''P,x'' \<in> set (models provider_Q_first) \<and>
   ''P,x'' \<notin> set (models provider_Q_second) \<and>
   ''x'' \<in> set (models provider_Q_second) \<and>
   ''P,x'' = qualifiedName (name provider_Q_second) ''x'' \<and>
   (let s1 = snd (registerProvider provider_P_first ProviderService_empty);
        s2 = snd (registerProvider provider_P_second s1)
    in map_of (providers s2) ''P'' = Some provider_P_second \<and>
       map_of (keySelectors s2) ''P'' =
         Some \<lparr>currentIndex = 0, strategy = Failover, keys = [''k9'']\<rparr> \<and>
       map_of (modelRoutes s2) ''P,m1'' =
         Some \<lparr>provider = ''P'', model = ''m1'', fullModel = ''P,m1''\<rparr> \<and>
       resolveModelRoute ''P,m1'' s2 =
         Some \<lparr>resolved_provider = provider_P_second, originalModel = ''P,m1'',
               targetModel = ''m1''\<rparr> \<and>
       map_of (modelRoutes s2) ''m1'' =
         Some \<lparr>provider = ''P'', model = ''m1'', fullModel = ''P,m1''\<rparr> \<and>
       resolveModelRoute ''m1'' s2 =
         Some \<lparr>resolved_provider = provider_P_second, originalModel = ''m1'',
               targetModel = ''m1''\<rparr>) \<and>
   map_of (modelRoutes (snd (registerProvider provider_Q_second
       (snd (registerProvider provider_Q_first ProviderService_empty))))) ''P,x'' =
     Some \<lparr>provider = ''P'', model = ''x'', fullModel = ''P,x''\<rparr>"
proof -
  let ?s1 = "snd (registerProvider provider_P_first ProviderService_empty)"
  let ?s2 = "snd (registerProvider provider_P_second ?s1)"
  let ?t1 = "snd (registerProvider provider_Q_first ProviderService_empty)"
  let ?t2 = "snd (registerProvider provider_Q_second ?t1)"
  let ?route = "\<lparr>provider = ''P'', model = ''m1'', fullModel = ''P,m1''\<rparr>"
  have h1: "name provider_P_second = name provider_P_first"
    by (simp add: example_defs)
  have h2: "''m1'' \<in> set (models provider_P_first)"
    by (simp add: example_defs)
  have h3: "''m1'' \<notin> set (models provider_P_second)"
    by (simp add: example_defs)
  have h4: "map_of (modelRoutes ?s1) ''m1'' = Some ?route"
    by (simp add: service_defs example_defs)
  have h5: "provider ?route = name provider_P_first"
    by (simp add: example_defs)
  have h6: "''m1'' \<notin> qualifiedName (name provider_P_second) ` set (models provider_P_second)"
    by (simp add: example_defs qualifiedName_def)
  have g1: "name provider_Q_second = name provider_Q_first"
    by (simp add: provider_Q_first_def provider_Q_second_def)
  have g2: "''P,x'' \<in> set (models provider_Q_first)"
    by (simp add: provider_Q_first_def)
  have g3: "''P,x'' \<notin> set (models provider_Q_second)"
    by (simp add: provider_Q_second_def)
  have g4: "''x'' \<in> set (models provider_Q_second)"
    by (simp add: provider_Q_second_def)
  have g5: "''P,x'' = qualifiedName (name provider_Q_second) ''x''"
    by (simp add: provider_Q_second_def qualifiedName_def)
  have nm: "name provider_P_first = ''P''" "qualifiedName ''P'' ''m1'' = ''P,m1''"
    "apiKey provider_P_second = [''k9'']" "apiKeyStrategy provider_P_second = Some Failover"
    "name provider_Q_second = ''P''" "qualifiedName ''P'' ''x'' = ''P,x''"
    by (simp_all add: example_defs provider_Q_second_def qualifiedName_def)
  note inst = registerProvider_again_keeps_routes [OF h1 h2 h3, of ProviderService_empty,
      unfolded Let_def]
  from inst have first: "map_of (providers ?s2) ''P'' = Some provider_P_second"
    "map_of (keySelectors ?s2) ''P'' = Some \<lparr>currentIndex = 0, strategy = Failover, keys = [''k9'']\<rparr>"
    "map_of (modelRoutes ?s2) ''P,m1'' = Some ?route"
    "resolveModelRoute ''P,m1'' ?s2 =
       Some \<lparr>resolved_provider = provider_P_second, originalModel = ''P,m1'', targetModel = ''m1''\<rparr>"
    by (simp_all add: nm)
  from inst h4 h5 h6 have "map_of (modelRoutes ?s2) ''m1'' = Some ?route \<and>
      resolveModelRoute ''m1'' ?s2 =
        Some \<lparr>resolved_provider = provider_P_second, originalModel = ''m1'',
              targetModel = model ?route\<rparr>"
    by blast
  then have bare: "map_of (modelRoutes ?s2) ''m1'' = Some ?route"
    "resolveModelRoute ''m1'' ?s2 =
       Some \<lparr>resolved_provider = provider_P_second, originalModel = ''m1'', targetModel = ''m1''\<rparr>"
    by simp_all
  note inst' = registerProvider_again_keeps_routes [OF g1 g2 g3, of ProviderService_empty,
      unfolded Let_def]
  from inst' g4 g5 have "map_of (modelRoutes ?t2) ''P,x'' =
      Some \<lparr>provider = name provider_Q_second, model = ''x'', fullModel = ''P,x''\<rparr>"
    by blast
  then have clash: "map_of (modelRoutes ?t2) ''P,x'' =
      Some \<lparr>provider = ''P'', model = ''x'', fullModel = ''P,x''\<rparr>"
    by (simp add: nm)
  show ?thesis
    unfolding Let_def
    using h1 h2 h3 h4 h5 h6 g1 g2 g3 g4 g5 first bare clash by (intro conjI)
qed

end
